theory Spec2Isabelle
  imports Complex_Main "HOL-Library.Word"
begin

unbundle bit_operations_syntax

text \<open>
  A shallow embedding of the media engine's forwarding plane: the RTP forwarder, the
  subscription manager, the ICE agent's pair formation and packet demultiplexer, the
  frame buffer, the packet pacer and the audio mixer. Each C++ function is a HOL function
  on a record of the object's state. A callback is a flag (installed or not) with the log
  of the calls made to it; a clock reading is an argument. The first half of the theory is
  the model, the second half states and proves the properties.
\<close>

section \<open>Shared types\<close>

type_synonym ParticipantId = string
type_synonym StreamId = string
type_synonym byte = "8 word"

text \<open>\<^verbatim>\<open>struct SocketAddress\<close> of \<^verbatim>\<open>udp_socket.h\<close>.\<close>

record SocketAddress =
  ip :: string
  port :: "16 word"

section \<open>RTP forwarder (\<^verbatim>\<open>server/src/rtp_forwarder.cpp\<close>)\<close>

record RtpStreamInfo =
  ssrc :: "32 word"
  payload_type :: byte
  is_audio :: bool
  simulcast_layer :: int
  codec_name :: string

record ForwardingRule =
  subscriber_id :: ParticipantId
  destination :: SocketAddress
  rewritten_ssrc :: "32 word"
  preferred_simulcast_layer :: int
  is_active :: bool

record ForwarderStats =
  packets_received :: "64 word"
  packets_forwarded :: "64 word"
  bytes_received :: "64 word"
  bytes_forwarded :: "64 word"
  packets_dropped :: "64 word"
  active_publishers :: "64 word"
  active_subscribers :: "64 word"

record PublisherStream =
  publisher_id :: ParticipantId
  stream_id :: StreamId
  info :: RtpStreamInfo
  subscribers :: "ForwardingRule list"

text \<open>
  \<^verbatim>\<open>RtpForwarder::Impl\<close>. The two \<^verbatim>\<open>unordered_map\<close>s are partial maps; \<^verbatim>\<open>size_t\<close> and
  \<^verbatim>\<open>uint64_t\<close> counters are 64-bit words. The \<^verbatim>\<open>std::function\<close> send sink is a flag (set or
  empty) together with the log of the calls made to it, oldest first.
\<close>

type_synonym sink_call = "ParticipantId \<times> byte list \<times> SocketAddress"

record ForwarderImpl =
  forward_callback :: bool
  sink :: "sink_call list"
  ssrc_to_stream :: "32 word \<rightharpoonup> PublisherStream"
  publisher_ssrcs :: "ParticipantId \<rightharpoonup> 32 word list"
  stats :: ForwarderStats
  forward_buffer :: "byte list"

text \<open>Lines 68 to 75: copy the packet into the scratch buffer and overwrite bytes 8..11.\<close>

definition assign_and_rewrite :: "byte list \<Rightarrow> 32 word \<Rightarrow> byte list" where
  "assign_and_rewrite packet s =
     (let buf = packet in
      if 12 \<le> length buf
      then buf[8 := ucast (drop_bit 24 s AND 0xFF),
               9 := ucast (drop_bit 16 s AND 0xFF),
               10 := ucast (drop_bit 8 s AND 0xFF),
               11 := ucast (s AND 0xFF)]
      else buf)"

text \<open>The layer test of lines 57 to 61: true when the rule is skipped.\<close>

definition layer_mismatch :: "PublisherStream \<Rightarrow> ForwardingRule \<Rightarrow> bool" where
  "layer_mismatch stream rule \<longleftrightarrow>
     0 \<le> preferred_simulcast_layer rule \<and> 0 \<le> simulcast_layer (info stream) \<and>
     simulcast_layer (info stream) \<noteq> preferred_simulcast_layer rule"

text \<open>One iteration of the loop of \<^verbatim>\<open>forward_packet\<close>.\<close>

definition forward_rule ::
  "PublisherStream \<Rightarrow> byte list \<Rightarrow> ForwarderImpl \<Rightarrow> ForwardingRule \<Rightarrow> ForwarderImpl" where
  "forward_rule stream packet st rule =
     (if \<not> is_active rule then st
      else if layer_mismatch stream rule then st
      else if forward_callback st then
        (let st1 =
           (if rewritten_ssrc rule \<noteq> 0 \<and> rewritten_ssrc rule \<noteq> ssrc (info stream)
            then
              (let buf = assign_and_rewrite packet (rewritten_ssrc rule) in
               st\<lparr>forward_buffer := buf,
                  sink := sink st @ [(subscriber_id rule, buf, destination rule)]\<rparr>)
            else st\<lparr>sink := sink st @ [(subscriber_id rule, packet, destination rule)]\<rparr>)
         in st1\<lparr>stats := (stats st1)
              \<lparr>packets_forwarded := packets_forwarded (stats st1) + 1,
               bytes_forwarded := bytes_forwarded (stats st1) + of_nat (length packet)\<rparr>\<rparr>)
      else st)"

definition forward_packet ::
  "PublisherStream \<Rightarrow> byte list \<Rightarrow> ForwarderImpl \<Rightarrow> ForwarderImpl" where
  "forward_packet stream packet st = foldl (forward_rule stream packet) st (subscribers stream)"

definition add_publisher ::
  "ParticipantId \<Rightarrow> StreamId \<Rightarrow> RtpStreamInfo \<Rightarrow> ForwarderImpl \<Rightarrow> ForwarderImpl" where
  "add_publisher pid sid sinfo st =
     (let stream = \<lparr>publisher_id = pid, stream_id = sid, info = sinfo, subscribers = []\<rparr>;
          s2s = (ssrc_to_stream st)(ssrc sinfo \<mapsto> stream);
          old = (case publisher_ssrcs st pid of None \<Rightarrow> [] | Some l \<Rightarrow> l);
          ps = (publisher_ssrcs st)(pid \<mapsto> old @ [ssrc sinfo])
      in st\<lparr>ssrc_to_stream := s2s,
            publisher_ssrcs := ps,
            stats := (stats st)\<lparr>active_publishers := of_nat (card (dom ps))\<rparr>\<rparr>)"

text \<open>
  The body of the loop of \<^verbatim>\<open>add_subscription\<close> and of \<^verbatim>\<open>remove_subscription\<close>: apply
  \<open>f\<close> to the rule list of the stream of one SSRC, when that stream exists.
\<close>

definition on_stream ::
  "(ForwardingRule list \<Rightarrow> ForwardingRule list) \<Rightarrow>
   (32 word \<rightharpoonup> PublisherStream) \<Rightarrow> 32 word \<Rightarrow> (32 word \<rightharpoonup> PublisherStream)" where
  "on_stream f m s =
     (case m s of
        None \<Rightarrow> m
      | Some stream \<Rightarrow> m(s \<mapsto> stream\<lparr>subscribers := f (subscribers stream)\<rparr>))"

definition add_subscription ::
  "ParticipantId \<Rightarrow> ParticipantId \<Rightarrow> ForwardingRule \<Rightarrow> ForwarderImpl \<Rightarrow> ForwarderImpl" where
  "add_subscription pid sub rule0 st =
     (let rule = rule0\<lparr>subscriber_id := sub\<rparr> in
      case publisher_ssrcs st pid of
        None \<Rightarrow> st
      | Some ssrcs \<Rightarrow>
          st\<lparr>ssrc_to_stream := foldl (on_stream (\<lambda>subs. subs @ [rule])) (ssrc_to_stream st) ssrcs,
             stats := (stats st)\<lparr>active_subscribers := active_subscribers (stats st) + 1\<rparr>\<rparr>)"

definition remove_subscription ::
  "ParticipantId \<Rightarrow> ParticipantId \<Rightarrow> ForwarderImpl \<Rightarrow> ForwarderImpl" where
  "remove_subscription pid sub st =
     (case publisher_ssrcs st pid of
        None \<Rightarrow> st
      | Some ssrcs \<Rightarrow>
          st\<lparr>ssrc_to_stream :=
               foldl (on_stream (filter (\<lambda>r. subscriber_id r \<noteq> sub))) (ssrc_to_stream st) ssrcs,
             stats := (stats st)\<lparr>active_subscribers := active_subscribers (stats st) - 1\<rparr>\<rparr>)"

text \<open>\<^verbatim>\<open>read_uint32_be\<close> of \<^verbatim>\<open>core/src/rtp_packet.cpp\<close>, with which the RTP parser reads the
  SSRC at offset 8. The caller guarantees four readable bytes.\<close>

definition read_uint32_be :: "byte list \<Rightarrow> 32 word" where
  "read_uint32_be data =
     push_bit 24 (ucast (data ! 0)) OR push_bit 16 (ucast (data ! 1)) OR
     push_bit 8 (ucast (data ! 2)) OR ucast (data ! 3)"

text \<open>A rule reaches the send sink when neither \<^verbatim>\<open>continue\<close> of the loop fires.\<close>

definition delivered :: "PublisherStream \<Rightarrow> ForwardingRule \<Rightarrow> bool" where
  "delivered stream rule \<longleftrightarrow> is_active rule \<and> \<not> layer_mismatch stream rule"

text \<open>The freshly constructed forwarder, and the data of the spec's seed scenarios 1 and 2.\<close>

definition new_forwarder :: ForwarderImpl where
  "new_forwarder = \<lparr>forward_callback = False, sink = [], ssrc_to_stream = Map.empty,
     publisher_ssrcs = Map.empty,
     stats = \<lparr>packets_received = 0, packets_forwarded = 0, bytes_received = 0,
              bytes_forwarded = 0, packets_dropped = 0, active_publishers = 0,
              active_subscribers = 0\<rparr>,
     forward_buffer = []\<rparr>"

definition seed_info :: RtpStreamInfo where
  "seed_info = \<lparr>ssrc = 0xAABBCCDD, payload_type = 111, is_audio = True,
                 simulcast_layer = -1, codec_name = ''opus''\<rparr>"

definition seed_rule :: ForwardingRule where
  "seed_rule = \<lparr>subscriber_id = ''S'', destination = \<lparr>ip = ''10.0.0.2'', port = 5000\<rparr>,
                 rewritten_ssrc = 0x11223344, preferred_simulcast_layer = -1, is_active = True\<rparr>"

definition seed_stream :: PublisherStream where
  "seed_stream = \<lparr>publisher_id = ''P'', stream_id = ''mic'', info = seed_info,
                   subscribers = [seed_rule]\<rparr>"

definition seed_packet :: "byte list" where
  "seed_packet = [0x80, 111, 0, 1, 0, 0, 0, 160, 0xAA, 0xBB, 0xCC, 0xDD, 7, 9]"

definition collision_state :: ForwarderImpl where
  "collision_state =
     add_subscription ''P'' ''S'' seed_rule (add_publisher ''P'' ''mic'' seed_info new_forwarder)"

section \<open>Subscription manager (\<^verbatim>\<open>subscription_manager.cpp\<close>, \<^verbatim>\<open>subscription_manager.h\<close>)\<close>

text \<open>
  Field names that an earlier record already uses carry a prefix here
  (\<open>layer_is_active\<close> for \<^verbatim>\<open>SimulcastLayerInfo::is_active\<close>, \<open>sub_publisher_id\<close> and
  \<open>sub_stream_id\<close> for the two identifiers of \<^verbatim>\<open>Subscription\<close>). C++ \<^verbatim>\<open>int\<close> fields that are
  only stored and compared are integers; \<open>bitrate_kbps\<close> is multiplied, so it is a 32-bit
  word read as two's complement. The \<^verbatim>\<open>float\<close> fields of \<^verbatim>\<open>BandwidthInfo\<close> are only stored.
\<close>

record SimulcastLayerInfo =
  layer_index :: int
  width :: int
  height :: int
  fps :: int
  bitrate_kbps :: "32 word"
  layer_is_active :: bool

record Subscription =
  sub_publisher_id :: ParticipantId
  sub_stream_id :: StreamId
  target_layer :: int
  current_layer :: int
  is_paused :: bool
  sub_bytes_received :: "64 word"

record BandwidthInfo =
  estimated_bps :: "64 word"
  packet_loss :: real
  rtt_ms :: real

text \<open>\<^verbatim>\<open>SubscriptionKey\<close> is (subscriber, publisher, stream); \<^verbatim>\<open>StreamKey\<close> is (publisher, stream).\<close>

type_synonym SubscriptionKey = "ParticipantId \<times> ParticipantId \<times> StreamId"
type_synonym StreamKey = "ParticipantId \<times> StreamId"

text \<open>One call of the layer-switch callback: subscriber, publisher, old layer, new layer.\<close>

type_synonym layer_switch = "ParticipantId \<times> ParticipantId \<times> int \<times> int"

text \<open>
  \<^verbatim>\<open>SubscriptionManager::Impl\<close>. The subscription table is iterated and updated in place by
  \<^verbatim>\<open>process()\<close>, so it is an association list in iteration order; the two tables that are
  only looked up by key are partial maps. The callback is a flag with the log of its calls.
\<close>

record SubscriptionManagerImpl =
  layer_switch_callback :: bool
  layer_switches :: "layer_switch list"
  subscriptions :: "(SubscriptionKey \<times> Subscription) list"
  stream_layers :: "StreamKey \<rightharpoonup> SimulcastLayerInfo list"
  bandwidth_info :: "ParticipantId \<rightharpoonup> BandwidthInfo"

text \<open>The test of line 96: \<^verbatim>\<open>static_cast<uint64_t>(layer.bitrate_kbps * 1000) <= available_bps\<close>.
  The product is a 32-bit \<^verbatim>\<open>int\<close>; the cast to \<^verbatim>\<open>uint64_t\<close> extends its sign.\<close>

definition layer_fits :: "64 word \<Rightarrow> SimulcastLayerInfo \<Rightarrow> bool" where
  "layer_fits available_bps layer \<longleftrightarrow>
     layer_is_active layer \<and> (scast (bitrate_kbps layer * 1000) :: 64 word) \<le> available_bps"

definition select_best_layer :: "SubscriptionManagerImpl \<Rightarrow> ParticipantId \<Rightarrow> StreamKey \<Rightarrow> int" where
  "select_best_layer impl sid stream_key =
     (case bandwidth_info impl sid of
        None \<Rightarrow> 2
      | Some bw \<Rightarrow>
          (case stream_layers impl stream_key of
             None \<Rightarrow> 0
           | Some layers \<Rightarrow>
               foldl (\<lambda>best_layer layer.
                        if layer_fits (estimated_bps bw) layer then layer_index layer
                        else best_layer)
                 0 layers))"

text \<open>\<^verbatim>\<open>operator[]\<close> assignment on an \<^verbatim>\<open>unordered_map\<close> kept as an association list.\<close>

fun umap_assign :: "'k \<Rightarrow> 'v \<Rightarrow> ('k \<times> 'v) list \<Rightarrow> ('k \<times> 'v) list" where
  "umap_assign k v [] = [(k, v)]"
| "umap_assign k v ((k', v') # m) = (if k = k' then (k, v) # m else (k', v') # umap_assign k v m)"

definition set_available_layers ::
  "ParticipantId \<Rightarrow> StreamId \<Rightarrow> SimulcastLayerInfo list \<Rightarrow>
   SubscriptionManagerImpl \<Rightarrow> SubscriptionManagerImpl" where
  "set_available_layers pid sid layers impl =
     impl\<lparr>stream_layers := (stream_layers impl)((pid, sid) \<mapsto> layers)\<rparr>"

definition subscribe ::
  "ParticipantId \<Rightarrow> ParticipantId \<Rightarrow> StreamId \<Rightarrow> int \<Rightarrow>
   SubscriptionManagerImpl \<Rightarrow> SubscriptionManagerImpl" where
  "subscribe sid pid strm target impl =
     (let sub = \<lparr>sub_publisher_id = pid, sub_stream_id = strm, target_layer = target,
                  current_layer = (if 0 \<le> target then target else 2),
                  is_paused = False, sub_bytes_received = 0\<rparr>
      in impl\<lparr>subscriptions := umap_assign (sid, pid, strm) sub (subscriptions impl)\<rparr>)"

definition update_bandwidth ::
  "ParticipantId \<Rightarrow> BandwidthInfo \<Rightarrow> SubscriptionManagerImpl \<Rightarrow> SubscriptionManagerImpl" where
  "update_bandwidth sid bw impl = impl\<lparr>bandwidth_info := (bandwidth_info impl)(sid \<mapsto> bw)\<rparr>"

text \<open>
  One iteration of the loop of \<^verbatim>\<open>process()\<close>: the entry after the iteration and the
  callback calls it made. No iteration reads what another one writes.
\<close>

definition process_entry ::
  "SubscriptionManagerImpl \<Rightarrow> SubscriptionKey \<times> Subscription \<Rightarrow>
   (SubscriptionKey \<times> Subscription) \<times> layer_switch list" where
  "process_entry impl entry =
     (case entry of ((sid, pid, strm), sub) \<Rightarrow>
        if is_paused sub \<or> 0 \<le> target_layer sub then (entry, [])
        else
          (let best_layer = select_best_layer impl sid (pid, strm) in
           if best_layer \<noteq> current_layer sub
           then (((sid, pid, strm), sub\<lparr>current_layer := best_layer\<rparr>),
                 if layer_switch_callback impl
                 then [(sid, pid, current_layer sub, best_layer)] else [])
           else (entry, [])))"

definition process :: "SubscriptionManagerImpl \<Rightarrow> SubscriptionManagerImpl" where
  "process impl =
     impl\<lparr>subscriptions := map (\<lambda>e. fst (process_entry impl e)) (subscriptions impl),
          layer_switches :=
            layer_switches impl @ concat (map (\<lambda>e. snd (process_entry impl e)) (subscriptions impl))\<rparr>"

text \<open>\<^verbatim>\<open>get_current_layer\<close>: the first entry of the subscriber and publisher, else \<open>-1\<close>.\<close>

fun get_current_layer_in ::
  "(SubscriptionKey \<times> Subscription) list \<Rightarrow> ParticipantId \<Rightarrow> ParticipantId \<Rightarrow> int" where
  "get_current_layer_in [] sid pid = -1"
| "get_current_layer_in (((s, p, strm), sub) # rest) sid pid =
     (if s = sid \<and> p = pid then current_layer sub else get_current_layer_in rest sid pid)"

definition get_current_layer ::
  "SubscriptionManagerImpl \<Rightarrow> ParticipantId \<Rightarrow> ParticipantId \<Rightarrow> int" where
  "get_current_layer impl sid pid = get_current_layer_in (subscriptions impl) sid pid"

text \<open>The freshly constructed manager, and the three layers of the spec's seed scenario 3.\<close>

definition new_manager :: SubscriptionManagerImpl where
  "new_manager = \<lparr>layer_switch_callback = True, layer_switches = [], subscriptions = [],
                   stream_layers = Map.empty, bandwidth_info = Map.empty\<rparr>"

definition seed_layers :: "SimulcastLayerInfo list" where
  "seed_layers =
     [\<lparr>layer_index = 0, width = 320, height = 180, fps = 15, bitrate_kbps = 150,
        layer_is_active = True\<rparr>,
      \<lparr>layer_index = 1, width = 640, height = 360, fps = 30, bitrate_kbps = 500,
        layer_is_active = True\<rparr>,
      \<lparr>layer_index = 2, width = 1280, height = 720, fps = 30, bitrate_kbps = 1500,
        layer_is_active = True\<rparr>]"

definition seed_manager :: "64 word \<Rightarrow> real \<Rightarrow> SubscriptionManagerImpl" where
  "seed_manager bps loss =
     update_bandwidth ''S'' \<lparr>estimated_bps = bps, packet_loss = loss, rtt_ms = 20\<rparr>
       (set_available_layers ''P'' ''cam'' seed_layers
         (subscribe ''S'' ''P'' ''cam'' (-1) new_manager))"

section \<open>ICE agent (\<^verbatim>\<open>core/src/ice_agent.cpp\<close>, \<^verbatim>\<open>ice_agent.h\<close>)\<close>

datatype IceCandidateType = HOST | SERVER_REFLEXIVE | PEER_REFLEXIVE | RELAY

datatype IceRole = CONTROLLING | CONTROLLED

datatype PairState = FROZEN | WAITING | IN_PROGRESS | SUCCEEDED | FAILED

record IceCandidate =
  foundation :: string
  component :: "32 word"
  protocol :: string
  priority :: "32 word"
  address :: SocketAddress
  cand_type :: IceCandidateType
  related_address :: SocketAddress

text \<open>\<^verbatim>\<open>IceCandidatePair\<close>; its \<^verbatim>\<open>priority\<close> field is \<open>pair_priority\<close> here, its \<^verbatim>\<open>chrono\<close> round
  trip time is a count of milliseconds.\<close>

record IceCandidatePair =
  local :: IceCandidate
  remote :: IceCandidate
  pair_priority :: "64 word"
  state :: PairState
  rtt :: int
  bytes_sent :: "64 word"
  pair_bytes_received :: "64 word"

text \<open>
  The part of \<^verbatim>\<open>IceAgent::Impl\<close> that \<^verbatim>\<open>add_remote_candidate\<close> and \<^verbatim>\<open>process_packet\<close> use:
  the configured role, the candidate lists, the pair list, the received-checks counter of
  the statistics, and the \<^verbatim>\<open>on_data\<close> callback as a flag with the log of its calls.
\<close>

record IceAgentImpl =
  role :: IceRole
  local_candidates :: "IceCandidate list"
  remote_candidates :: "IceCandidate list"
  candidate_pairs :: "IceCandidatePair list"
  connectivity_checks_received :: "64 word"
  on_data :: bool
  data_log :: "(byte list \<times> SocketAddress) list"

text \<open>\<^verbatim>\<open>IceCandidate::calculate_priority\<close>, in 32-bit unsigned arithmetic.\<close>

definition calculate_priority :: "IceCandidateType \<Rightarrow> 32 word \<Rightarrow> 32 word \<Rightarrow> 32 word" where
  "calculate_priority t local_preference cid =
     (let type_pref = (case t of HOST \<Rightarrow> 126 | PEER_REFLEXIVE \<Rightarrow> 110
                            | SERVER_REFLEXIVE \<Rightarrow> 100 | RELAY \<Rightarrow> 0)
      in push_bit 24 type_pref + push_bit 8 local_preference + (256 - cid))"

text \<open>The body of the loop of \<^verbatim>\<open>add_remote_candidate\<close>: the pair made with one local
  candidate. A default-constructed pair has state \<^verbatim>\<open>FROZEN\<close> and zero statistics.\<close>

definition make_pair :: "IceRole \<Rightarrow> IceCandidate \<Rightarrow> IceCandidate \<Rightarrow> IceCandidatePair" where
  "make_pair r loc candidate =
     \<lparr>local = loc, remote = candidate,
      pair_priority =
        (if r = CONTROLLING
         then push_bit 32 (ucast (priority loc)) + ucast (priority candidate)
         else push_bit 32 (ucast (priority candidate)) + ucast (priority loc)),
      state = FROZEN, rtt = 0, bytes_sent = 0, pair_bytes_received = 0\<rparr>"

definition add_remote_candidate :: "IceCandidate \<Rightarrow> IceAgentImpl \<Rightarrow> IceAgentImpl" where
  "add_remote_candidate candidate impl =
     foldl (\<lambda>st loc. st\<lparr>candidate_pairs := candidate_pairs st @ [make_pair (role st) loc candidate]\<rparr>)
       (impl\<lparr>remote_candidates := remote_candidates impl @ [candidate]\<rparr>)
       (local_candidates impl)"

text \<open>
  \<^verbatim>\<open>IceAgent::process_packet\<close>: the returned flag (always true) and the agent afterwards.
  \<^verbatim>\<open>data[0]\<close> is read only after the length test.
\<close>

definition is_stun_packet :: "byte list \<Rightarrow> bool" where
  "is_stun_packet data \<longleftrightarrow> 20 \<le> length data \<and> (data ! 0) AND 0xC0 = 0"

definition process_packet :: "byte list \<Rightarrow> SocketAddress \<Rightarrow> IceAgentImpl \<Rightarrow> bool \<times> IceAgentImpl" where
  "process_packet data source impl =
     (if is_stun_packet data
      then (True, impl\<lparr>connectivity_checks_received := connectivity_checks_received impl + 1\<rparr>)
      else (True, if on_data impl then impl\<lparr>data_log := data_log impl @ [(data, source)]\<rparr>
                  else impl))"

text \<open>
  The pair priority as claim C7 words it, for a controlling priority \<open>G\<close> and a controlled
  priority \<open>D\<close>; and the STUN test as claim C8 words it, the cookie being read as
  \<^verbatim>\<open>StunMessage::parse\<close> reads it.
\<close>

definition spec_pair_priority :: "32 word \<Rightarrow> 32 word \<Rightarrow> 64 word" where
  "spec_pair_priority G D =
     push_bit 32 (ucast (min G D)) OR push_bit 1 (ucast (max G D)) OR (if G > D then 1 else 0)"

definition spec_is_stun :: "byte list \<Rightarrow> bool" where
  "spec_is_stun data \<longleftrightarrow>
     20 \<le> length data \<and> (data ! 0) AND 0xC0 = 0 \<and> read_uint32_be (drop 4 data) = 0x2112A442"

text \<open>An agent with one host candidate, as \<^verbatim>\<open>gather_candidates\<close> leaves it, a remote host
  candidate of lower priority, and a 20-byte packet of zeros.\<close>

definition host_candidate :: "32 word \<Rightarrow> IceCandidate" where
  "host_candidate local_preference =
     \<lparr>foundation = ''1'', component = 1, protocol = ''udp'',
      priority = calculate_priority HOST local_preference 1,
      address = \<lparr>ip = ''192.0.2.1'', port = 4000\<rparr>, cand_type = HOST,
      related_address = \<lparr>ip = [], port = 0\<rparr>\<rparr>"

definition gathered_agent :: "IceRole \<Rightarrow> IceAgentImpl" where
  "gathered_agent r =
     \<lparr>role = r, local_candidates = [host_candidate 65535], remote_candidates = [],
      candidate_pairs = [], connectivity_checks_received = 0, on_data = True, data_log = []\<rparr>"

definition zero_packet :: "byte list" where
  "zero_packet = replicate 20 0"

definition peer_address :: SocketAddress where
  "peer_address = \<lparr>ip = ''198.51.100.7'', port = 6000\<rparr>"

section \<open>Frame buffer (\<^verbatim>\<open>frame_buffer.cpp\<close>, \<^verbatim>\<open>frame_buffer.h\<close>)\<close>

text \<open>
  Time points of the steady clock are integers (nanoseconds), read by the caller and
  passed in; \<^verbatim>\<open>duration_cast<milliseconds>\<close> truncates towards zero. The configured delays
  are counts of milliseconds.
\<close>

definition duration_cast_ms :: "int \<Rightarrow> int" where
  "duration_cast_ms d = (if d < 0 then - ((- d) div 1000000) else d div 1000000)"

text \<open>\<^verbatim>\<open>FrameAssembler\<close>. The \<^verbatim>\<open>std::map\<close> of packets is only looked up and assigned by key
  and tested for emptiness: an association list.\<close>

record FrameAssembler =
  fa_timestamp :: "32 word"
  packets :: "(16 word \<times> byte list) list"
  first_sequence :: "16 word"
  last_sequence :: "16 word"
  has_first :: bool
  has_last :: bool
  fa_is_keyframe :: bool
  first_arrival :: int

record BufferedFrame =
  frame_data :: "byte list"
  rtp_timestamp :: "32 word"
  sequence_start :: "16 word"
  sequence_end :: "16 word"
  arrival_time :: int
  frame_is_keyframe :: bool
  frame_is_complete :: bool

record FrameBufferStats =
  frames_buffered :: "64 word"
  frames_decoded :: "64 word"
  frames_dropped :: "64 word"
  packets_lost :: "64 word"

record FrameBufferConfig =
  max_frames :: "64 word"
  max_delay :: int
  target_delay :: int
  enable_nack :: bool
  wait_for_keyframe :: bool

record FrameBufferImpl =
  config :: FrameBufferConfig
  assemblers :: "(32 word \<times> FrameAssembler) list"
  complete_frames :: "BufferedFrame list"
  received_sequences :: "16 word set"
  highest_sequence :: "16 word"
  has_keyframe :: bool
  fb_stats :: FrameBufferStats

text \<open>
  The loop of \<^verbatim>\<open>is_complete\<close>:
  \<^verbatim>\<open>for (uint16_t seq = first_sequence; seq != last_sequence + 1; ++seq)\<close>.
  Both sides of \<^verbatim>\<open>!=\<close> are promoted to \<^verbatim>\<open>int\<close>, so the bound is \<open>uint last + 1\<close>, a value
  between 1 and 65536, while \<^verbatim>\<open>++seq\<close> wraps at 16 bits. The loop need not end, so the
  result is optional: \<open>None\<close> stands for a loop that never returns.
\<close>

partial_function (option) is_complete_loop ::
  "(16 word \<times> byte list) list \<Rightarrow> 16 word \<Rightarrow> 16 word \<Rightarrow> bool option" where
  "is_complete_loop pkts last_seq seq =
     (if uint seq = uint last_seq + 1 then Some True
      else if map_of pkts seq = None then Some False
      else is_complete_loop pkts last_seq (seq + 1))"

declare is_complete_loop.simps [code]

definition is_complete :: "FrameAssembler \<Rightarrow> bool option" where
  "is_complete a =
     (if \<not> has_first a \<or> \<not> has_last a then Some False
      else is_complete_loop (packets a) (last_sequence a) (first_sequence a))"

text \<open>The loop of \<^verbatim>\<open>assemble\<close>: \<^verbatim>\<open>for (uint16_t seq = first_sequence;; ++seq)\<close>, left when
  \<^verbatim>\<open>seq == last_sequence\<close>. Here both sides are 16-bit, so the loop ends.\<close>

function assemble_loop ::
  "(16 word \<times> byte list) list \<Rightarrow> 16 word \<Rightarrow> 16 word \<Rightarrow> byte list \<Rightarrow> byte list" where
  "assemble_loop pkts last_seq seq acc =
     (let acc' = (case map_of pkts seq of Some payload \<Rightarrow> acc @ payload | None \<Rightarrow> acc)
      in if seq = last_seq then acc' else assemble_loop pkts last_seq (seq + 1) acc')"
  by pat_completeness auto
termination
proof (relation "measure (\<lambda>(pkts, last_seq, seq, acc). unat (last_seq - seq))")
  show "wf (measure (\<lambda>(pkts, last_seq, seq, acc). unat (last_seq - seq)))"
    by simp
next
  fix pkts :: "(16 word \<times> byte list) list" and last_seq seq :: "16 word"
    and acc acc' :: "byte list"
  assume "seq \<noteq> last_seq"
  then have nz: "last_seq - seq \<noteq> 0"
    by simp
  have eq: "last_seq - (seq + 1) = (last_seq - seq) - 1"
    by simp
  have "unat ((last_seq - seq) - 1) < unat (last_seq - seq)"
    using nz by (simp add: unat_minus_one unat_gt_0)
  then have "unat (last_seq - (seq + 1)) < unat (last_seq - seq)"
    by (simp only: eq)
  then show "((pkts, last_seq, seq + 1, acc'), (pkts, last_seq, seq, acc))
      \<in> measure (\<lambda>(pkts, last_seq, seq, acc). unat (last_seq - seq))"
    by simp
qed

definition assemble :: "FrameAssembler \<Rightarrow> BufferedFrame" where
  "assemble a =
     \<lparr>frame_data = assemble_loop (packets a) (last_sequence a) (first_sequence a) [],
      rtp_timestamp = fa_timestamp a,
      sequence_start = first_sequence a,
      sequence_end = last_sequence a,
      arrival_time = first_arrival a,
      frame_is_keyframe = fa_is_keyframe a,
      frame_is_complete = True\<rparr>"

text \<open>The first loop of \<^verbatim>\<open>cleanup_old_frames\<close>: drop complete frames from the front while
  they are older than \<^verbatim>\<open>max_delay\<close>.\<close>

fun drop_old_frames :: "int \<Rightarrow> int \<Rightarrow> BufferedFrame list \<Rightarrow> 64 word \<Rightarrow> BufferedFrame list \<times> 64 word" where
  "drop_old_frames now maxd [] dropped = ([], dropped)"
| "drop_old_frames now maxd (f # fs) dropped =
     (if duration_cast_ms (now - arrival_time f) > maxd
      then drop_old_frames now maxd fs (dropped + 1)
      else (f # fs, dropped))"

definition cleanup_old_frames :: "int \<Rightarrow> FrameBufferImpl \<Rightarrow> FrameBufferImpl" where
  "cleanup_old_frames now impl =
     (let (frames, dropped) =
            drop_old_frames now (max_delay (config impl)) (complete_frames impl)
              (frames_dropped (fb_stats impl))
      in impl\<lparr>complete_frames := frames,
              fb_stats := (fb_stats impl)\<lparr>frames_dropped := dropped\<rparr>,
              assemblers :=
                filter (\<lambda>(ts, a). \<not> duration_cast_ms (now - first_arrival a)
                                      > max_delay (config impl) * 2)
                  (assemblers impl)\<rparr>)"

text \<open>A default-constructed assembler, which \<^verbatim>\<open>assemblers[timestamp]\<close> creates for a new
  timestamp.\<close>

definition new_assembler :: FrameAssembler where
  "new_assembler = \<lparr>fa_timestamp = 0, packets = [], first_sequence = 0, last_sequence = 0,
     has_first = False, has_last = False, fa_is_keyframe = False, first_arrival = 0\<rparr>"

text \<open>Lines 148 to 175 of \<^verbatim>\<open>insert_packet\<close>: what one packet does to its assembler. The
  comparison of sequence numbers is the 16-bit signed difference.\<close>

definition assembler_insert ::
  "byte list \<Rightarrow> 16 word \<Rightarrow> 32 word \<Rightarrow> bool \<Rightarrow> bool \<Rightarrow> int \<Rightarrow> FrameAssembler \<Rightarrow> FrameAssembler" where
  "assembler_insert payload sequence ts marker is_keyframe_packet now a0 =
     (let a1 = (if packets a0 = [] then a0\<lparr>fa_timestamp := ts, first_arrival := now\<rparr> else a0);
          a2 = a1\<lparr>packets := umap_assign sequence payload (packets a1)\<rparr>;
          a3 = (if \<not> has_first a2 \<or> sint (sequence - first_sequence a2) < 0
                then a2\<lparr>first_sequence := sequence, has_first := True\<rparr> else a2);
          a4 = (if marker then a3\<lparr>last_sequence := sequence, has_last := True\<rparr> else a3)
      in if is_keyframe_packet then a4\<lparr>fa_is_keyframe := True\<rparr> else a4)"

text \<open>
  \<^verbatim>\<open>insert_packet\<close>. The clock is read when the assembler is stamped (\<open>now\<close>) and again in
  the clean-up (\<open>now'\<close>). The result is \<open>None\<close> when the completeness loop does not return.
\<close>

definition insert_packet ::
  "byte list \<Rightarrow> 16 word \<Rightarrow> 32 word \<Rightarrow> bool \<Rightarrow> bool \<Rightarrow> int \<Rightarrow> int \<Rightarrow>
   FrameBufferImpl \<Rightarrow> FrameBufferImpl option" where
  "insert_packet payload sequence ts marker is_keyframe_packet now now' impl0 =
     (let impl1 = impl0\<lparr>received_sequences := insert sequence (received_sequences impl0)\<rparr>;
          impl2 = (if sint (sequence - highest_sequence impl1) > 0
                   then impl1\<lparr>highest_sequence := sequence\<rparr> else impl1);
          a0 = (case map_of (assemblers impl2) ts of Some a \<Rightarrow> a | None \<Rightarrow> new_assembler);
          a = assembler_insert payload sequence ts marker is_keyframe_packet now a0;
          impl3 = impl2\<lparr>assemblers := umap_assign ts a (assemblers impl2)\<rparr>
      in case is_complete a of
           None \<Rightarrow> None
         | Some False \<Rightarrow> Some (cleanup_old_frames now' impl3)
         | Some True \<Rightarrow>
             if wait_for_keyframe (config impl3) \<and> \<not> has_keyframe impl3 \<and> \<not> fa_is_keyframe a
             then Some impl3
             else
               (let impl4 = (if fa_is_keyframe a then impl3\<lparr>has_keyframe := True\<rparr> else impl3);
                    impl5 = impl4\<lparr>complete_frames := complete_frames impl4 @ [assemble a],
                                 assemblers := filter (\<lambda>(t, _). t \<noteq> ts) (assemblers impl4),
                                 fb_stats := (fb_stats impl4)
                                   \<lparr>frames_buffered := frames_buffered (fb_stats impl4) + 1\<rparr>\<rparr>
                in Some (cleanup_old_frames now' impl5)))"

text \<open>\<^verbatim>\<open>pop_frame\<close>: the frame, if one is due at time \<open>now\<close>, and the buffer afterwards.\<close>

definition pop_frame :: "int \<Rightarrow> FrameBufferImpl \<Rightarrow> BufferedFrame option \<times> FrameBufferImpl" where
  "pop_frame now impl =
     (case complete_frames impl of
        [] \<Rightarrow> (None, impl)
      | f # fs \<Rightarrow>
          if duration_cast_ms (now - arrival_time f) < target_delay (config impl)
          then (None, impl)
          else (Some f, impl\<lparr>complete_frames := fs,
                            fb_stats := (fb_stats impl)
                              \<lparr>frames_decoded := frames_decoded (fb_stats impl) + 1\<rparr>\<rparr>))"

text \<open>A buffer as constructed with the default configuration.\<close>

definition new_frame_buffer :: FrameBufferImpl where
  "new_frame_buffer =
     \<lparr>config = \<lparr>max_frames = 30, max_delay = 200, target_delay = 50, enable_nack = True,
                wait_for_keyframe = True\<rparr>,
      assemblers = [], complete_frames = [], received_sequences = {}, highest_sequence = 0,
      has_keyframe = False,
      fb_stats = \<lparr>frames_buffered = 0, frames_decoded = 0, frames_dropped = 0, packets_lost = 0\<rparr>\<rparr>"

text \<open>The completeness test as claim C5 words it: both bounds are known and every
  sequence number from \<open>first_sequence\<close> up to \<open>last_sequence\<close>, counting modulo \<open>2^16\<close>, has a
  stored payload.\<close>

definition spec_complete :: "FrameAssembler \<Rightarrow> bool" where
  "spec_complete a \<longleftrightarrow>
     has_first a \<and> has_last a \<and>
     (\<forall>k \<le> unat (last_sequence a - first_sequence a).
        map_of (packets a) (first_sequence a + of_nat k) \<noteq> None)"

section \<open>Packet pacer (\<^verbatim>\<open>rtp_pacer.cpp\<close>, \<^verbatim>\<open>rtp_pacer.h\<close>)\<close>

text \<open>
  \<^verbatim>\<open>size_t\<close> and \<^verbatim>\<open>uint64_t\<close> quantities of the token arithmetic are natural numbers, with
  the wrap-around at \<open>2^64\<close> written where the C++ expression can overflow; the statistics
  counters are 64-bit words. Fields named like fields of earlier records carry a prefix.
\<close>

record PacedPacket =
  pkt_data :: "byte list"
  pkt_destination :: SocketAddress
  enqueue_time :: int
  pkt_priority :: int

record PacerConfig =
  target_bitrate_bps :: nat
  max_bitrate_bps :: nat
  bucket_size_bytes :: nat
  max_queue_size :: nat
  pacing_interval :: int

record PacerStats =
  packets_sent :: "64 word"
  pacer_bytes_sent :: "64 word"
  pacer_packets_dropped :: "64 word"

text \<open>
  \<^verbatim>\<open>RtpPacer::Impl\<close>. The send callback is a flag with the log of its calls. The priority
  queue is the list of its packets with \<^verbatim>\<open>top()\<close> at the head: a packet of highest
  priority. \<^verbatim>\<open>std::priority_queue\<close> leaves open which packet of several with the same priority
  is on top; the list keeps them in enqueue order.
\<close>

record RtpPacerImpl =
  pacer_config :: PacerConfig
  send_callback :: bool
  sent_log :: "(byte list \<times> SocketAddress) list"
  available_tokens :: nat
  last_process_time :: int
  queue :: "PacedPacket list"
  pacer_stats :: PacerStats


text \<open>\<^verbatim>\<open>queue.push\<close> under \<^verbatim>\<open>PacketCompare\<close>: behind every packet whose priority is not lower.\<close>

fun queue_push :: "PacedPacket \<Rightarrow> PacedPacket list \<Rightarrow> PacedPacket list" where
  "queue_push p [] = [p]"
| "queue_push p (q # qs) =
     (if pkt_priority q < pkt_priority p then p # q # qs else q # queue_push p qs)"

definition enqueue ::
  "byte list \<Rightarrow> SocketAddress \<Rightarrow> int \<Rightarrow> int \<Rightarrow> RtpPacerImpl \<Rightarrow> bool \<times> RtpPacerImpl" where
  "enqueue payload dest prio now impl =
     (if length (queue impl) \<ge> max_queue_size (pacer_config impl)
      then (False, impl\<lparr>pacer_stats := (pacer_stats impl)
              \<lparr>pacer_packets_dropped := pacer_packets_dropped (pacer_stats impl) + 1\<rparr>\<rparr>)
      else (True, impl\<lparr>queue := queue_push
              \<lparr>pkt_data = payload, pkt_destination = dest, enqueue_time = now,
               pkt_priority = prio\<rparr> (queue impl)\<rparr>))"

text \<open>
  The \<^verbatim>\<open>while\<close> loop of \<^verbatim>\<open>process()\<close> over the queue, head first: stop at the first packet
  larger than the token balance, else hand it to the callback (when one is set), pay its
  size and pop it. The second component counts the packets sent.
\<close>

fun drain :: "PacedPacket list \<Rightarrow> RtpPacerImpl \<Rightarrow> nat \<Rightarrow> RtpPacerImpl \<times> nat" where
  "drain [] impl n = (impl\<lparr>queue := []\<rparr>, n)"
| "drain (p # q) impl n =
     (if length (pkt_data p) > available_tokens impl then (impl\<lparr>queue := p # q\<rparr>, n)
      else
        drain q
          (impl\<lparr>sent_log := (if send_callback impl
                               then sent_log impl @ [(pkt_data p, pkt_destination p)]
                               else sent_log impl),
                available_tokens := available_tokens impl - length (pkt_data p),
                pacer_stats := (pacer_stats impl)
                  \<lparr>packets_sent := packets_sent (pacer_stats impl) + 1,
                   pacer_bytes_sent := pacer_bytes_sent (pacer_stats impl)
                                        + of_nat (length (pkt_data p))\<rparr>\<rparr>)
          ((n + 1) mod 2 ^ 64))"

text \<open>
  \<^verbatim>\<open>process()\<close> at clock reading \<open>now\<close>. \<^verbatim>\<open>elapsed.count()\<close> is a signed 64-bit count of
  milliseconds, converted to unsigned in the product.
\<close>

definition refill :: "int \<Rightarrow> RtpPacerImpl \<Rightarrow> nat" where
  "refill now impl =
     (let elapsed = duration_cast_ms (now - last_process_time impl);
          new_tokens = ((target_bitrate_bps (pacer_config impl) div 8) * nat (elapsed mod 2 ^ 64))
                         mod 2 ^ 64 div 1000
      in min ((available_tokens impl + new_tokens) mod 2 ^ 64)
             (bucket_size_bytes (pacer_config impl)))"

definition pacer_process :: "int \<Rightarrow> RtpPacerImpl \<Rightarrow> RtpPacerImpl \<times> nat" where
  "pacer_process now impl =
     drain (queue impl)
       (impl\<lparr>last_process_time := now, available_tokens := refill now impl\<rparr>) 0"

text \<open>A sequence of calls on one pacer, each with the clock reading it makes.\<close>

datatype pacer_call =
  Enqueue "byte list" SocketAddress int int
| Process int

fun pacer_step :: "RtpPacerImpl \<Rightarrow> pacer_call \<Rightarrow> RtpPacerImpl" where
  "pacer_step impl (Enqueue payload dest prio now) = snd (enqueue payload dest prio now impl)"
| "pacer_step impl (Process now) = fst (pacer_process now impl)"

definition pacer_run :: "pacer_call list \<Rightarrow> RtpPacerImpl \<Rightarrow> RtpPacerImpl" where
  "pacer_run calls impl = foldl pacer_step impl calls"


text \<open>The number of bytes handed to the send callback so far.\<close>

definition bytes_handed :: "RtpPacerImpl \<Rightarrow> nat" where
  "bytes_handed impl = sum_list (map (\<lambda>(payload, dest). length payload) (sent_log impl))"



section \<open>Audio mixer (\<^verbatim>\<open>server/src/audio_mixer.cpp\<close>, \<^verbatim>\<open>audio_mixer.h\<close>)\<close>

text \<open>
  The mixer computes with \<^verbatim>\<open>float\<close>. The type of floats is a parameter \<open>'f\<close> here, and the
  floating-point expressions of the source are the fields of a record of operations that
  every function of the model takes as its first argument:
  \<^item> \<open>mul_trunc s g\<close> is \<^verbatim>\<open>static_cast<int32_t>(s * g)\<close> for an \<^verbatim>\<open>int16_t\<close> sample \<open>s\<close>;
  \<^item> \<open>left_gain vol pan\<close> is \<^verbatim>\<open>vol * std::sqrt((1.0f - pan) / 2.0f)\<close>, \<open>right_gain\<close> likewise;
  \<^item> \<open>level_of sum n\<close> is the tail of \<^verbatim>\<open>calculate_level\<close> from the sum of squares on;
  \<^item> \<open>fgt\<close> is \<^verbatim>\<open>>\<close> on floats, \<open>db_floor\<close> is \<^verbatim>\<open>-96.0f\<close> and \<open>db_speaker\<close> is \<^verbatim>\<open>-40.0f\<close>.
  Integer samples and accumulators are 16-bit and 32-bit words.
\<close>

record 'f fpu =
  mul_trunc :: "16 word \<Rightarrow> 'f \<Rightarrow> 32 word"
  left_gain :: "'f \<Rightarrow> 'f \<Rightarrow> 'f"
  right_gain :: "'f \<Rightarrow> 'f \<Rightarrow> 'f"
  level_of :: "64 word \<Rightarrow> nat \<Rightarrow> 'f"
  fgt :: "'f \<Rightarrow> 'f \<Rightarrow> bool"
  db_floor :: 'f
  db_speaker :: 'f

record AudioSourceConfig =
  sample_rate :: int
  channels :: int
  frame_duration_ms :: int

record 'f MixingParams =
  volume :: 'f
  pan :: 'f
  muted :: bool
  is_active_speaker :: bool

text \<open>\<^verbatim>\<open>AudioSource\<close>; its \<^verbatim>\<open>id\<close> field is \<open>source_id\<close>.\<close>

record 'f AudioSource =
  source_id :: ParticipantId
  params :: "'f MixingParams"
  buffer :: "16 word list"
  last_timestamp :: "32 word"
  audio_level_db :: 'f
  has_data :: bool

text \<open>
  \<^verbatim>\<open>AudioMixer::Impl\<close>. The source table is iterated by \<^verbatim>\<open>process()\<close>: an association list
  in iteration order. Each callback is a flag with the log of its calls.
\<close>

type_synonym mixed_call = "ParticipantId \<times> 16 word list \<times> 32 word"

record 'f AudioMixerImpl =
  mixer_config :: AudioSourceConfig
  sources :: "(ParticipantId \<times> 'f AudioSource) list"
  mixed_callback :: bool
  mixed_log :: "mixed_call list"
  speaker_callback :: bool
  speaker_log :: "(ParticipantId \<times> 'f) list"
  active_speaker :: ParticipantId
  active_sources :: "64 word"
  mixed_frames :: "64 word"
  mix_buffer :: "32 word list"
  output_buffer :: "16 word list"
  frame_size :: nat





text \<open>\<^verbatim>\<open>update_active_speaker\<close>.\<close>

definition update_active_speaker :: "'f fpu \<Rightarrow> 'f AudioMixerImpl \<Rightarrow> 'f AudioMixerImpl" where
  "update_active_speaker fp impl =
     (let (highest_level, loudest) =
            foldl (\<lambda>(h, l) (sid, source).
                     if muted (params source) then (h, l)
                     else if fgt fp (audio_level_db source) h then (audio_level_db source, sid)
                     else (h, l))
              (db_floor fp, []) (sources impl)
      in if fgt fp highest_level (db_speaker fp) \<and> loudest \<noteq> active_speaker impl
         then impl\<lparr>active_speaker := loudest,
                   speaker_log := (if speaker_callback impl
                                   then speaker_log impl @ [(loudest, highest_level)]
                                   else speaker_log impl)\<rparr>
         else impl)"

text \<open>The mono loop of \<^verbatim>\<open>process()\<close> for one source:
  \<^verbatim>\<open>mix_buffer[i] += static_cast<int32_t>(source.buffer[i] * source.params.volume)\<close>.\<close>

definition mono_mix :: "'f fpu \<Rightarrow> 'f AudioSource \<Rightarrow> 32 word list \<Rightarrow> 32 word list" where
  "mono_mix fp source mb =
     fold (\<lambda>i mb. mb[i := mb ! i + mul_trunc fp (buffer source ! i) (volume (params source))])
       [0..<length (buffer source)] mb"

text \<open>
  One round of the stereo loop, at an even index \<open>i\<close>. \<^verbatim>\<open>apply_volume_and_pan\<close> adds to both
  of \<open>left\<close> and \<open>right\<close> on each call, and the loop calls it for sample \<open>i\<close> and then, with
  the same two variables, for sample \<open>i + 1\<close>.
\<close>

definition stereo_round :: "'f fpu \<Rightarrow> 'f AudioSource \<Rightarrow> nat \<Rightarrow> 32 word list \<Rightarrow> 32 word list" where
  "stereo_round fp source i mb =
     (let lg = left_gain fp (volume (params source)) (pan (params source));
          rg = right_gain fp (volume (params source)) (pan (params source));
          left = 0 + mul_trunc fp (buffer source ! i) lg;
          right = 0 + mul_trunc fp (buffer source ! i) rg;
          mb1 = mb[i := mb ! i + left]
      in if i + 1 < length mb1
         then (let right' = right + mul_trunc fp (buffer source ! (i + 1)) rg
               in mb1[i + 1 := mb1 ! (i + 1) + right'])
         else mb1)"

definition stereo_mix :: "'f fpu \<Rightarrow> 'f AudioSource \<Rightarrow> 32 word list \<Rightarrow> 32 word list" where
  "stereo_mix fp source mb =
     fold (stereo_round fp source) (map (\<lambda>k. 2 * k) [0..<(length (buffer source) + 1) div 2]) mb"

text \<open>The inner loop over the sources, for one recipient.\<close>

definition mix_source ::
  "'f fpu \<Rightarrow> AudioSourceConfig \<Rightarrow> ParticipantId \<Rightarrow> 32 word list \<Rightarrow>
   ParticipantId \<times> 'f AudioSource \<Rightarrow> 32 word list" where
  "mix_source fp cfg recipient_id mb entry =
     (case entry of (sid, source) \<Rightarrow>
        if sid = recipient_id then mb
        else if \<not> has_data source then mb
        else if muted (params source) then mb
        else if channels cfg = 1 then mono_mix fp source mb
        else stereo_mix fp source mb)"

text \<open>\<^verbatim>\<open>std::clamp\<close> to the 16-bit range and the cast to \<^verbatim>\<open>int16_t\<close>.\<close>

definition saturate :: "32 word \<Rightarrow> 16 word" where
  "saturate val =
     (if sint val < - 32768 then - 32768 else if 32767 < sint val then 32767 else ucast val)"

text \<open>
  The body of the outer loop: zero the accumulator, mix, saturate into the output buffer
  (both buffers have \<open>frame_size\<close> elements) and call the callback with the recipient's last
  timestamp.
\<close>

definition process_recipient ::
  "'f fpu \<Rightarrow> 'f AudioMixerImpl \<Rightarrow> ParticipantId \<times> 'f AudioSource \<Rightarrow> 'f AudioMixerImpl" where
  "process_recipient fp impl entry =
     (let recipient_id = fst entry;
          mb = foldl (mix_source fp (mixer_config impl) recipient_id)
                 (replicate (length (mix_buffer impl)) 0) (sources impl);
          ob = map saturate mb;
          impl1 = impl\<lparr>mix_buffer := mb, output_buffer := ob\<rparr>
      in if mixed_callback impl1
         then (let ts = (case map_of (sources impl1) recipient_id of
                           Some source \<Rightarrow> last_timestamp source | None \<Rightarrow> 0)
               in impl1\<lparr>mixed_log := mixed_log impl1 @ [(recipient_id, ob, ts)]\<rparr>)
         else impl1)"

definition mixer_process :: "'f fpu \<Rightarrow> 'f AudioMixerImpl \<Rightarrow> 'f AudioMixerImpl" where
  "mixer_process fp impl =
     (if sources impl = [] then impl
      else
        (let impl1 = update_active_speaker fp impl;
             impl2 = foldl (process_recipient fp) impl1 (sources impl1)
         in impl2\<lparr>mixed_frames := mixed_frames impl2 + 1,
                  sources := map (\<lambda>(sid, source). (sid, source\<lparr>has_data := False\<rparr>))
                               (sources impl2)\<rparr>))"

text \<open>
  The words of claim C2. The sources a recipient hears are those with another id that have
  data and are not muted. What one source adds to accumulator slot \<open>p\<close>: in mono its sample
  \<open>p\<close> scaled by its volume; in stereo its sample scaled by the left gain on an even slot,
  and on an odd slot the right-gain products of the sample and of the sample before it.
  The calls of the mixed-audio callback for one recipient during one tick.
\<close>

definition heard :: "ParticipantId \<Rightarrow> ParticipantId \<times> 'f AudioSource \<Rightarrow> bool" where
  "heard recipient_id entry \<longleftrightarrow>
     fst entry \<noteq> recipient_id \<and> has_data (snd entry) \<and> \<not> muted (params (snd entry))"


definition source_share :: "'f fpu \<Rightarrow> AudioSourceConfig \<Rightarrow> 'f AudioSource \<Rightarrow> nat \<Rightarrow> 32 word" where
  "source_share fp cfg source p =
     (if channels cfg = 1 then mul_trunc fp (buffer source ! p) (volume (params source))
      else if even p
      then mul_trunc fp (buffer source ! p)
             (left_gain fp (volume (params source)) (pan (params source)))
      else mul_trunc fp (buffer source ! (p - 1))
             (right_gain fp (volume (params source)) (pan (params source)))
           + mul_trunc fp (buffer source ! p)
             (right_gain fp (volume (params source)) (pan (params source))))"



text \<open>What the constructor, \<open>add_source\<close> and \<open>push_audio\<close> maintain: the keys of the source
  table are distinct and every sample buffer is as long as the accumulator.\<close>

definition mixer_wf :: "'f AudioMixerImpl \<Rightarrow> bool" where
  "mixer_wf impl \<longleftrightarrow>
     distinct (map fst (sources impl)) \<and>
     list_all (\<lambda>entry. length (buffer (snd entry)) = length (mix_buffer impl)) (sources impl) \<and>
     length (mix_buffer impl) = frame_size impl"




section \<open>Verified properties\<close>

subsection \<open>RTP forwarder\<close>

lemma and_255: "(x :: 32 word) AND 0xFF = take_bit 8 x"
proof -
  have "(0xFF :: 32 word) = mask 8" by (simp add: mask_eq_exp_minus_1)
  then show ?thesis by (simp add: take_bit_eq_mask)
qed

lemma byte_of: "(ucast (ucast (take_bit 8 (x :: 32 word)) :: byte) :: 32 word) = take_bit 8 x"
  by (rule bit_word_eqI) (auto simp: bit_simps)

lemma be_bytes:
  "push_bit 24 (ucast (ucast (drop_bit 24 s AND 0xFF) :: byte)) OR
   push_bit 16 (ucast (ucast (drop_bit 16 s AND 0xFF) :: byte)) OR
   push_bit 8 (ucast (ucast (drop_bit 8 s AND 0xFF) :: byte)) OR
   ucast (ucast (s AND 0xFF) :: byte) = (s :: 32 word)"
  unfolding and_255 byte_of
  apply (rule bit_word_eqI)
  apply (simp add: bit_simps)
  apply (simp cong: conj_cong)
  subgoal for n by (cases "bit s n") (simp_all, arith)
  done

lemma assign_and_rewrite_props:
  assumes "12 \<le> length packet"
  shows "length (assign_and_rewrite packet s) = length packet"
    and "take 8 (assign_and_rewrite packet s) = take 8 packet"
    and "drop 12 (assign_and_rewrite packet s) = drop 12 packet"
    and "read_uint32_be (drop 8 (assign_and_rewrite packet s)) = s"
  using assms
  by (simp_all add: assign_and_rewrite_def read_uint32_be_def be_bytes)

lemma forward_rule_callback:
  "forward_callback (forward_rule stream packet st rule) = forward_callback st"
  by (simp add: forward_rule_def Let_def)

lemma forward_rule_sink:
  "forward_callback st \<Longrightarrow>
   sink (forward_rule stream packet st rule) =
     sink st @ (if delivered stream rule
                then [(subscriber_id rule,
                       if rewritten_ssrc rule \<noteq> 0 \<and> rewritten_ssrc rule \<noteq> ssrc (info stream)
                       then assign_and_rewrite packet (rewritten_ssrc rule) else packet,
                       destination rule)]
                else [])"
  by (simp add: forward_rule_def delivered_def Let_def)

lemma forward_loop_sink:
  "forward_callback st \<Longrightarrow>
   sink (foldl (forward_rule stream packet) st rules) =
     sink st @ map (\<lambda>rule. (subscriber_id rule,
                       if rewritten_ssrc rule \<noteq> 0 \<and> rewritten_ssrc rule \<noteq> ssrc (info stream)
                       then assign_and_rewrite packet (rewritten_ssrc rule) else packet,
                       destination rule)) (filter (delivered stream) rules)"
proof (induction rules arbitrary: st)
  case Nil
  then show ?case by simp
next
  case (Cons r rules)
  have cb: "forward_callback (forward_rule stream packet st r)"
    using Cons.prems by (simp add: forward_rule_callback)
  show ?case
    using Cons.IH [OF cb] Cons.prems by (simp add: forward_rule_sink)
qed

text \<open>
  Claim C1 (SSRC rewrite bit-exactness). With a send sink installed, \<open>forward_packet\<close> makes
  one sink call per delivered rule, in rule order. For the \<open>i\<close>-th delivered rule, when its
  \<open>rewritten_ssrc\<close> is non-zero and differs from the stream's SSRC and the packet has at least
  12 bytes, the bytes handed to the sink have the packet's length, agree with the packet on
  positions 0..7 and 12..end, and positions 8..11 read back (big-endian, as the RTP parser
  reads the SSRC) as \<open>rewritten_ssrc\<close>.
\<close>

theorem ssrc_rewrite_bit_exact:
  assumes cb: "forward_callback st"
    and len: "12 \<le> length packet"
    and i: "i < length (filter (delivered stream) (subscribers stream))"
    and r: "rule = filter (delivered stream) (subscribers stream) ! i"
    and nz: "rewritten_ssrc rule \<noteq> 0"
    and ne: "rewritten_ssrc rule \<noteq> ssrc (info stream)"
  shows "\<exists>b. sink (forward_packet stream packet st) ! (length (sink st) + i)
               = (subscriber_id rule, b, destination rule) \<and>
             length b = length packet \<and>
             take 8 b = take 8 packet \<and>
             drop 12 b = drop 12 packet \<and>
             read_uint32_be (drop 8 b) = rewritten_ssrc rule"
proof -
  have "sink (forward_packet stream packet st) ! (length (sink st) + i) =
        (subscriber_id rule, assign_and_rewrite packet (rewritten_ssrc rule), destination rule)"
    using i r nz ne by (simp add: forward_packet_def forward_loop_sink [OF cb])
  then show ?thesis
    using assign_and_rewrite_props [OF len] by simp
qed

theorem ssrc_rewrite_bit_exact_witness:
  "\<exists>b. sink (forward_packet seed_stream seed_packet (new_forwarder\<lparr>forward_callback := True\<rparr>)) ! 0
          = (''S'', b, \<lparr>ip = ''10.0.0.2'', port = 5000\<rparr>) \<and>
        length b = length seed_packet \<and> take 8 b = take 8 seed_packet \<and>
        drop 12 b = drop 12 seed_packet \<and>
        read_uint32_be (drop 8 b) = 0x11223344"
  using ssrc_rewrite_bit_exact [of "new_forwarder\<lparr>forward_callback := True\<rparr>" seed_packet 0
      seed_stream seed_rule]
  by (simp add: seed_stream_def seed_rule_def seed_info_def seed_packet_def new_forwarder_def
      delivered_def layer_mismatch_def)

lemma collision_state_stream:
  "ssrc_to_stream collision_state 0xAABBCCDD =
     Some \<lparr>publisher_id = ''P'', stream_id = ''mic'', info = seed_info, subscribers = [seed_rule]\<rparr>"
  by (simp add: collision_state_def add_subscription_def add_publisher_def new_forwarder_def
      on_stream_def seed_info_def seed_rule_def Let_def)

text \<open>
  Claim C9 as stated fails: \<open>add_publisher\<close> returns no error and has no rejection branch.
  Registering a second publisher on the SSRC of \<open>collision_state\<close>, which holds a stream with
  one forwarding rule, changes the entry of that SSRC.
\<close>

theorem add_publisher_collision_counterexample:
  "ssrc seed_info \<in> dom (ssrc_to_stream collision_state) \<and>
   ssrc_to_stream (add_publisher ''Q'' ''cam'' seed_info collision_state) (ssrc seed_info)
     \<noteq> ssrc_to_stream collision_state (ssrc seed_info)"
  using collision_state_stream
  by (simp add: add_publisher_def Let_def seed_info_def dom_def)

text \<open>
  Claim C9, amended. Every call of \<open>add_publisher\<close>, also one whose SSRC is already in the
  table, is accepted: the entry of that SSRC becomes a fresh stream of the new publisher with
  no forwarding rules, the entries of all other SSRCs are kept, the SSRC is appended to the
  new publisher's SSRC list, and the send sink is not called.
\<close>

theorem add_publisher_overwrites:
  "ssrc_to_stream (add_publisher pid sid sinfo st) (ssrc sinfo) =
     Some \<lparr>publisher_id = pid, stream_id = sid, info = sinfo, subscribers = []\<rparr> \<and>
   (\<forall>s. s \<noteq> ssrc sinfo \<longrightarrow>
      ssrc_to_stream (add_publisher pid sid sinfo st) s = ssrc_to_stream st s) \<and>
   publisher_ssrcs (add_publisher pid sid sinfo st) pid =
     Some ((case publisher_ssrcs st pid of None \<Rightarrow> [] | Some l \<Rightarrow> l) @ [ssrc sinfo]) \<and>
   sink (add_publisher pid sid sinfo st) = sink st"
  by (simp add: add_publisher_def Let_def)

theorem add_publisher_overwrites_witness:
  "ssrc_to_stream (add_publisher ''Q'' ''cam'' seed_info collision_state) 0xAABBCCDD =
     Some \<lparr>publisher_id = ''Q'', stream_id = ''cam'', info = seed_info, subscribers = []\<rparr> \<and>
   ssrc_to_stream (add_publisher ''Q'' ''cam'' seed_info collision_state) 7 =
     ssrc_to_stream collision_state 7"
  using add_publisher_overwrites [of "''Q''" "''cam''" seed_info collision_state]
  by (simp add: seed_info_def)

lemma on_stream_filter_id:
  assumes "\<And>stream. m s = Some stream \<Longrightarrow> \<forall>r \<in> set (subscribers stream). subscriber_id r \<noteq> sub"
  shows "on_stream (filter (\<lambda>r. subscriber_id r \<noteq> sub)) m s = m"
proof (cases "m s")
  case None
  then show ?thesis by (simp add: on_stream_def)
next
  case (Some stream)
  with assms have "filter (\<lambda>r. subscriber_id r \<noteq> sub) (subscribers stream) = subscribers stream"
    by (simp add: filter_id_conv)
  with Some show ?thesis by (auto simp: on_stream_def)
qed

lemma remove_loop_id:
  assumes "\<forall>s \<in> set ssrcs. \<forall>stream. m s = Some stream \<longrightarrow>
             (\<forall>r \<in> set (subscribers stream). subscriber_id r \<noteq> sub)"
  shows "foldl (on_stream (filter (\<lambda>r. subscriber_id r \<noteq> sub))) m ssrcs = m"
  using assms
  by (induction ssrcs) (simp_all add: on_stream_filter_id)

text \<open>
  Claim C10. \<open>remove_subscription\<close> on a publisher id that is not in the publisher table
  returns the forwarder unchanged, statistics included. On a publisher id that is in the
  table, \<open>active_subscribers\<close> goes down by exactly one (as a \<^verbatim>\<open>size_t\<close>, so from 0 it wraps);
  in particular, when none of the publisher's streams carries a rule of that subscriber,
  the decrement is the only change of the state.
\<close>

theorem remove_subscription_counter:
  "(publisher_ssrcs st pid = None \<longrightarrow> remove_subscription pid sub st = st) \<and>
   (publisher_ssrcs st pid \<noteq> None \<longrightarrow>
      active_subscribers (stats (remove_subscription pid sub st)) =
        active_subscribers (stats st) - 1) \<and>
   (\<forall>ssrcs. publisher_ssrcs st pid = Some ssrcs \<and>
      (\<forall>s \<in> set ssrcs. \<forall>stream. ssrc_to_stream st s = Some stream \<longrightarrow>
          (\<forall>r \<in> set (subscribers stream). subscriber_id r \<noteq> sub)) \<longrightarrow>
      remove_subscription pid sub st =
        st\<lparr>stats := (stats st)\<lparr>active_subscribers := active_subscribers (stats st) - 1\<rparr>\<rparr>)"
  by (auto simp: remove_subscription_def remove_loop_id)

theorem remove_subscription_counter_witness:
  "remove_subscription ''nobody'' ''S'' collision_state = collision_state \<and>
   active_subscribers (stats (remove_subscription ''P'' ''T'' collision_state)) = 0 \<and>
   remove_subscription ''P'' ''T'' collision_state =
     collision_state\<lparr>stats := (stats collision_state)\<lparr>active_subscribers := 0\<rparr>\<rparr> \<and>
   active_subscribers (stats (remove_subscription ''P'' ''T''
       (add_publisher ''P'' ''mic'' seed_info new_forwarder))) = 0xFFFFFFFFFFFFFFFF"
  using remove_subscription_counter [of collision_state "''nobody''" "''S''"]
    remove_subscription_counter [of collision_state "''P''" "''T''"]
    remove_subscription_counter [of "add_publisher ''P'' ''mic'' seed_info new_forwarder" "''P''" "''T''"]
  by (simp add: collision_state_def add_subscription_def add_publisher_def new_forwarder_def
      on_stream_def seed_info_def seed_rule_def Let_def)

subsection \<open>Subscription manager\<close>

lemma foldl_last_match:
  "foldl (\<lambda>b l. if P l then f l else b) b0 ls =
     (if filter P ls = [] then b0 else f (last (filter P ls)))"
  by (induction ls arbitrary: b0) auto

lemma seed_manager_tables:
  "bandwidth_info (seed_manager bps loss) ''S'' =
     Some \<lparr>estimated_bps = bps, packet_loss = loss, rtt_ms = 20\<rparr>"
  "stream_layers (seed_manager bps loss) (''P'', ''cam'') = Some seed_layers"
  "subscriptions (seed_manager bps loss) =
     [((''S'', ''P'', ''cam''),
       \<lparr>sub_publisher_id = ''P'', sub_stream_id = ''cam'', target_layer = - 1,
        current_layer = 2, is_paused = False, sub_bytes_received = 0\<rparr>)]"
  by (simp_all add: seed_manager_def update_bandwidth_def set_available_layers_def
      subscribe_def new_manager_def)

lemma seed_select_100k: "select_best_layer (seed_manager 100000 loss) ''S'' (''P'', ''cam'') = 0"
  by (simp add: select_best_layer_def seed_manager_tables seed_layers_def layer_fits_def)

lemma seed_select_500k: "select_best_layer (seed_manager 500000 loss) ''S'' (''P'', ''cam'') = 1"
  by (simp add: select_best_layer_def seed_manager_tables seed_layers_def layer_fits_def)

text \<open>
  Claim C3 as stated fails in the fallback case: with the three seed layers (150, 500 and
  1500 kbps, all active) and a recorded estimate of 100000 bps no layer fits, automatic
  selection returns layer 0, and layer 0 needs 150000 bps.
\<close>

theorem select_best_layer_counterexample:
  "bandwidth_info (seed_manager 100000 0) ''S'' =
     Some \<lparr>estimated_bps = 100000, packet_loss = 0, rtt_ms = 20\<rparr> \<and>
   stream_layers (seed_manager 100000 0) (''P'', ''cam'') = Some seed_layers \<and>
   select_best_layer (seed_manager 100000 0) ''S'' (''P'', ''cam'') = layer_index (seed_layers ! 0) \<and>
   (scast (bitrate_kbps (seed_layers ! 0) * 1000) :: 64 word) > 100000"
  by (simp add: seed_manager_tables seed_select_100k) (simp add: seed_layers_def)

text \<open>
  Claim C3, amended. With a recorded estimate and a layer table, automatic selection
  returns the index of the last table entry that is active and whose
  \<open>bitrate_kbps \<times> 1000\<close> is at most \<open>estimated_bps\<close>, so a layer that fits, whenever some
  active layer fits; it returns 0 when no active layer fits, whatever layer 0 needs; it
  returns 0 without a layer table and 2 without a recorded estimate.
\<close>

theorem select_best_layer_fits:
  "(bandwidth_info impl sid = None \<longrightarrow> select_best_layer impl sid key = 2) \<and>
   (\<forall>bw. bandwidth_info impl sid = Some bw \<and> stream_layers impl key = None \<longrightarrow>
      select_best_layer impl sid key = 0) \<and>
   (\<forall>bw layers. bandwidth_info impl sid = Some bw \<and> stream_layers impl key = Some layers \<longrightarrow>
      (filter (layer_fits (estimated_bps bw)) layers = [] \<longrightarrow>
         select_best_layer impl sid key = 0) \<and>
      (filter (layer_fits (estimated_bps bw)) layers \<noteq> [] \<longrightarrow>
         select_best_layer impl sid key =
           layer_index (last (filter (layer_fits (estimated_bps bw)) layers)) \<and>
         (\<exists>layer \<in> set layers.
            layer_index layer = select_best_layer impl sid key \<and> layer_is_active layer \<and>
            (scast (bitrate_kbps layer * 1000) :: 64 word) \<le> estimated_bps bw)))"
proof -
  have "\<exists>layer \<in> set layers. layer_index layer = layer_index (last (filter (layer_fits b) layers)) \<and>
          layer_is_active layer \<and> (scast (bitrate_kbps layer * 1000) :: 64 word) \<le> b"
    if "filter (layer_fits b) layers \<noteq> []" for b layers
  proof -
    from that have "last (filter (layer_fits b) layers) \<in> set (filter (layer_fits b) layers)"
      by (rule last_in_set)
    then show ?thesis by (auto simp: layer_fits_def)
  qed
  then show ?thesis
    by (auto simp: select_best_layer_def foldl_last_match)
qed

theorem select_best_layer_fits_witness:
  "select_best_layer (seed_manager 800000 0) ''S'' (''P'', ''cam'') = 1 \<and>
   (\<exists>layer \<in> set seed_layers. layer_index layer = 1 \<and> layer_is_active layer \<and>
      (scast (bitrate_kbps layer * 1000) :: 64 word) \<le> 800000) \<and>
   select_best_layer (seed_manager 100000 0) ''S'' (''P'', ''cam'') = 0 \<and>
   select_best_layer new_manager ''S'' (''P'', ''cam'') = 2 \<and>
   select_best_layer (seed_manager 800000 0) ''S'' (''P'', ''screen'') = 0"
  using select_best_layer_fits [of "seed_manager 800000 0" "''S''" "(''P'', ''cam'')"]
    select_best_layer_fits [of "seed_manager 100000 0" "''S''" "(''P'', ''cam'')"]
    select_best_layer_fits [of new_manager "''S''" "(''P'', ''cam'')"]
    select_best_layer_fits [of "seed_manager 800000 0" "''S''" "(''P'', ''screen'')"]
  apply (simp add: seed_manager_tables)
  apply (simp add: seed_layers_def layer_fits_def new_manager_def seed_manager_def
      update_bandwidth_def set_available_layers_def subscribe_def)
  done

lemma process_low:
  "subscriptions (process (seed_manager 100000 loss)) =
     [((''S'', ''P'', ''cam''),
       \<lparr>sub_publisher_id = ''P'', sub_stream_id = ''cam'', target_layer = - 1,
        current_layer = 0, is_paused = False, sub_bytes_received = 0\<rparr>)]"
  by (simp add: process_def process_entry_def seed_manager_tables seed_select_100k)

lemma select_after_update:
  "select_best_layer
     (update_bandwidth ''S'' \<lparr>estimated_bps = 500000, packet_loss = loss', rtt_ms = 20\<rparr>
        (process (seed_manager 100000 loss))) ''S'' (''P'', ''cam'') = 1"
  by (simp add: select_best_layer_def update_bandwidth_def process_def seed_manager_tables
      seed_layers_def layer_fits_def)

text \<open>
  Claim C4 as stated fails: \<open>process\<close> has no hysteresis. After one cycle at 100000 bps the
  seed subscription is on layer 0. The estimate then becomes 500000 bps with 50% packet
  loss; the very next cycle moves the subscription up to layer 1, whose 500000 bps are
  100% of the estimate (more than 85%), although the loss is above 2%.
\<close>

theorem process_hysteresis_counterexample:
  "get_current_layer (process (seed_manager 100000 0)) ''S'' ''P'' = 0 \<and>
   get_current_layer
     (process (update_bandwidth ''S'' \<lparr>estimated_bps = 500000, packet_loss = 0.5, rtt_ms = 20\<rparr>
        (process (seed_manager 100000 0)))) ''S'' ''P'' = 1 \<and>
   bitrate_kbps (seed_layers ! 1) = 500 \<and>
   \<not> ((500 * 1000 * 100 :: int) \<le> 85 * 500000) \<and>
   (0.02 :: real) < 0.5"
proof -
  have a: "get_current_layer (process (seed_manager 100000 0)) ''S'' ''P'' = 0"
    by (simp add: get_current_layer_def process_low)
  define X where
    "X = update_bandwidth ''S'' \<lparr>estimated_bps = 500000, packet_loss = 0.5, rtt_ms = 20\<rparr>
           (process (seed_manager 100000 0))"
  have subs: "subscriptions X =
     [((''S'', ''P'', ''cam''),
       \<lparr>sub_publisher_id = ''P'', sub_stream_id = ''cam'', target_layer = - 1,
        current_layer = 0, is_paused = False, sub_bytes_received = 0\<rparr>)]"
    by (simp add: X_def update_bandwidth_def process_low)
  have sel: "select_best_layer X ''S'' (''P'', ''cam'') = 1"
    unfolding X_def by (rule select_after_update)
  have "get_current_layer (process X) ''S'' ''P'' = 1"
    by (simp add: get_current_layer_def process_def subs process_entry_def sel)
  then have b: "get_current_layer
     (process (update_bandwidth ''S'' \<lparr>estimated_bps = 500000, packet_loss = 0.5, rtt_ms = 20\<rparr>
        (process (seed_manager 100000 0)))) ''S'' ''P'' = 1"
    by (simp add: X_def)
  show ?thesis using a b by (simp add: seed_layers_def)
qed

text \<open>
  Claim C4, amended. Every \<open>process\<close> cycle sets \<open>current_layer\<close> of each subscription that
  is in automatic mode and not paused to the result of automatic layer selection for the
  estimate recorded at that moment, at once: an upgrade or a downgrade takes one cycle,
  and the threshold is 100% of \<open>estimated_bps\<close>. Paused and manually set subscriptions
  are left as they are. The selection reads \<open>estimated_bps\<close> only, so packet loss and round
  trip time have no influence, and the manager keeps no history between cycles.
\<close>

theorem process_immediate:
  "(\<forall>i < length (subscriptions impl).
      \<forall>sid pid strm sub. subscriptions impl ! i = ((sid, pid, strm), sub) \<longrightarrow>
        subscriptions (process impl) ! i =
          ((sid, pid, strm),
           if is_paused sub \<or> 0 \<le> target_layer sub then sub
           else sub\<lparr>current_layer := select_best_layer impl sid (pid, strm)\<rparr>)) \<and>
   length (subscriptions (process impl)) = length (subscriptions impl) \<and>
   (\<forall>bw loss rtt sid' sid key.
      select_best_layer (update_bandwidth sid' (bw\<lparr>packet_loss := loss, rtt_ms := rtt\<rparr>) impl) sid key =
      select_best_layer (update_bandwidth sid' bw impl) sid key)"
proof -
  have "fst (process_entry impl ((sid, pid, strm), sub)) =
          ((sid, pid, strm),
           if is_paused sub \<or> 0 \<le> target_layer sub then sub
           else sub\<lparr>current_layer := select_best_layer impl sid (pid, strm)\<rparr>)"
    for sid pid strm sub
    by (simp add: process_entry_def Let_def)
  moreover have "select_best_layer (update_bandwidth sid' (bw\<lparr>packet_loss := loss, rtt_ms := rtt\<rparr>) impl) sid key =
      select_best_layer (update_bandwidth sid' bw impl) sid key"
    for bw loss rtt sid' sid key
    by (cases "sid = sid'")
       (simp_all add: select_best_layer_def update_bandwidth_def split: option.splits)
  ultimately show ?thesis
    by (simp add: process_def)
qed

theorem process_immediate_witness:
  "subscriptions (process (seed_manager 800000 0)) ! 0 =
     ((''S'', ''P'', ''cam''),
      \<lparr>sub_publisher_id = ''P'', sub_stream_id = ''cam'', target_layer = - 1,
       current_layer = 1, is_paused = False, sub_bytes_received = 0\<rparr>) \<and>
   length (subscriptions (process (seed_manager 800000 0))) = 1"
  using process_immediate [of "seed_manager 800000 0"]
  by (simp add: seed_manager_tables select_best_layer_def seed_layers_def layer_fits_def)

subsection \<open>ICE agent\<close>

lemma pair_loop:
  "foldl (\<lambda>st loc. st\<lparr>candidate_pairs := candidate_pairs st @ [make_pair (role st) loc candidate]\<rparr>)
     st locs =
   st\<lparr>candidate_pairs := candidate_pairs st @ map (\<lambda>loc. make_pair (role st) loc candidate) locs\<rparr>"
  by (induction locs arbitrary: st) simp_all

lemma add_remote_candidate_pairs:
  "candidate_pairs (add_remote_candidate candidate impl) =
     candidate_pairs impl @ map (\<lambda>loc. make_pair (role impl) loc candidate) (local_candidates impl)"
  by (simp add: add_remote_candidate_def pair_loop)

lemma unat_shift_add:
  "unat (push_bit 32 (ucast G) + ucast D :: 64 word) = unat (G :: 32 word) * 2 ^ 32 + unat (D :: 32 word)"
proof -
  have g: "unat G < 2 ^ 32" and d: "unat D < 2 ^ 32"
    using unsigned_less [of G] unsigned_less [of D] by simp_all
  have "unat G * 2 ^ 32 + unat D < 2 ^ 64"
    using g d by simp
  then show ?thesis
    by (simp add: unat_word_ariths unsigned_push_bit_eq unsigned_ucast_eq push_bit_eq_mult
        take_bit_eq_mod)
qed

text \<open>
  Claim C7 as stated fails: a controlling agent whose host candidate has priority
  \<open>G = 2130706431\<close> pairs it with a remote candidate of priority \<open>D = 2113955071\<close>. The
  pair gets \<open>G \<times> 2^32 + D\<close>, not the value of the claim's formula.
\<close>

theorem pair_priority_counterexample:
  "map pair_priority
     (candidate_pairs (add_remote_candidate (host_candidate 100) (gathered_agent CONTROLLING)))
     = [9151314440635835647] \<and>
   spec_pair_priority (priority (host_candidate 65535)) (priority (host_candidate 100))
     = 9079367899419770879 \<and>
   pair_priority
     (candidate_pairs (add_remote_candidate (host_candidate 100) (gathered_agent CONTROLLING)) ! 0)
     \<noteq> spec_pair_priority (priority (host_candidate 65535)) (priority (host_candidate 100))"
  by (simp add: add_remote_candidate_pairs gathered_agent_def make_pair_def host_candidate_def
      calculate_priority_def spec_pair_priority_def)

text \<open>
  Claim C7, amended. \<open>add_remote_candidate\<close> appends one pair per local candidate, in
  order (whatever the components). With \<open>G\<close> the candidate priority of the controlling
  side and \<open>D\<close> that of the controlled side, the pair's priority is \<open>G\<close> shifted left 32
  bits plus \<open>D\<close>, that is \<open>G \<times> 2^32 + D\<close> without wrap-around.
\<close>

theorem pair_priority_shift_add:
  assumes "i < length (local_candidates impl)"
    and "pair = candidate_pairs (add_remote_candidate candidate impl) ! (length (candidate_pairs impl) + i)"
    and "G = (if role impl = CONTROLLING then priority (local pair) else priority (remote pair))"
    and "D = (if role impl = CONTROLLING then priority (remote pair) else priority (local pair))"
  shows "local pair = local_candidates impl ! i \<and> remote pair = candidate \<and>
         pair_priority pair = push_bit 32 (ucast G) + ucast D \<and>
         unat (pair_priority pair) = unat G * 2 ^ 32 + unat D"
proof -
  have p: "pair = make_pair (role impl) (local_candidates impl ! i) candidate"
    using assms(1,2) by (simp add: add_remote_candidate_pairs)
  have "pair_priority pair = push_bit 32 (ucast G) + ucast D"
    using assms(3,4) by (simp add: p make_pair_def)
  then show ?thesis
    by (simp add: unat_shift_add) (simp add: p make_pair_def)
qed

theorem pair_priority_shift_add_witness:
  "pair_priority
     (candidate_pairs (add_remote_candidate (host_candidate 100) (gathered_agent CONTROLLED)) ! 0)
   = push_bit 32 (ucast (priority (host_candidate 100))) + ucast (priority (host_candidate 65535))"
  using pair_priority_shift_add [of 0 "gathered_agent CONTROLLED" _ "host_candidate 100", OF _ refl refl refl]
  by (simp add: gathered_agent_def add_remote_candidate_pairs make_pair_def)

text \<open>
  Claim C8 as stated fails: a packet of 20 zero bytes has leading bits 00 and no magic
  cookie, so the claim's test says it is application data; the agent counts it as a
  connectivity check and does not hand it to \<^verbatim>\<open>on_data\<close>.
\<close>

theorem process_packet_counterexample:
  "\<not> spec_is_stun zero_packet \<and>
   on_data (gathered_agent CONTROLLING) \<and>
   data_log (snd (process_packet zero_packet peer_address (gathered_agent CONTROLLING))) = [] \<and>
   connectivity_checks_received (snd (process_packet zero_packet peer_address (gathered_agent CONTROLLING))) = 1"
  by (simp add: spec_is_stun_def process_packet_def is_stun_packet_def zero_packet_def
      gathered_agent_def read_uint32_be_def)

text \<open>
  Claim C8, amended. A packet is treated as STUN if and only if its length is at least 20
  and the two leading bits of its first byte are 00; the magic cookie is not examined.
  A STUN packet increments the received-checks counter and is not passed on; every other
  packet leaves the counter alone and is delivered through \<^verbatim>\<open>on_data\<close> when that callback is
  set. Every packet the claim's test accepts as STUN is treated as STUN.
\<close>

theorem process_packet_demux:
  "(20 \<le> length data \<and> (data ! 0) AND 0xC0 = 0 \<longrightarrow>
      process_packet data src impl =
        (True, impl\<lparr>connectivity_checks_received := connectivity_checks_received impl + 1\<rparr>)) \<and>
   (\<not> (20 \<le> length data \<and> (data ! 0) AND 0xC0 = 0) \<longrightarrow>
      process_packet data src impl =
        (True, if on_data impl then impl\<lparr>data_log := data_log impl @ [(data, src)]\<rparr> else impl)) \<and>
   (spec_is_stun data \<longrightarrow> is_stun_packet data)"
  by (simp add: process_packet_def is_stun_packet_def spec_is_stun_def)

theorem process_packet_demux_witness:
  "process_packet zero_packet peer_address (gathered_agent CONTROLLED) =
     (True, (gathered_agent CONTROLLED)\<lparr>connectivity_checks_received := 1\<rparr>) \<and>
   process_packet (0x80 # zero_packet) peer_address (gathered_agent CONTROLLED) =
     (True, (gathered_agent CONTROLLED)\<lparr>data_log := [(0x80 # zero_packet, peer_address)]\<rparr>)"
  using process_packet_demux [of zero_packet peer_address "gathered_agent CONTROLLED"]
    process_packet_demux [of "0x80 # zero_packet" peer_address "gathered_agent CONTROLLED"]
  by (simp add: zero_packet_def gathered_agent_def)

subsection \<open>Frame buffer\<close>

lemma is_complete_loop_max:
  assumes "is_complete_loop pkts last_seq seq = Some r"
  shows "last_seq = 0xFFFF \<longrightarrow> \<not> r"
proof (rule is_complete_loop.raw_induct [OF _ assms])
  fix f pkts and last_seq seq :: "16 word" and r
  assume IH: "\<And>pkts last_seq seq r. f pkts last_seq seq = Some r \<Longrightarrow> last_seq = 0xFFFF \<longrightarrow> \<not> r"
    and step: "(if uint seq = uint last_seq + 1 then Some True
      else if map_of pkts seq = None then Some False
      else f pkts last_seq (seq + 1)) = Some r"
  have "uint seq < 65536" using uint_bounded [of seq] by simp
  with step IH show "last_seq = 0xFFFF \<longrightarrow> \<not> r"
    by (auto split: if_splits)
qed

text \<open>A frame whose marker packet has sequence number 65535 is never reported complete.\<close>

lemma is_complete_never_at_max:
  "last_sequence a = 0xFFFF \<Longrightarrow> is_complete a \<noteq> Some True"
  using is_complete_loop_max [of "packets a" "last_sequence a" "first_sequence a" True]
  by (auto simp: is_complete_def)

lemma uint_not_max: "(w :: 16 word) \<noteq> 0xFFFF \<Longrightarrow> uint w \<noteq> 65535"
  by (metis word_of_int_numeral word_of_int_uint)

lemma uint_succ:
  assumes "(w :: 16 word) \<noteq> 0xFFFF"
  shows "uint (w + 1) = uint w + 1"
proof -
  have "uint w < 65536" using uint_bounded [of w] by simp
  with uint_not_max [OF assms] have "uint w + 1 < 65536" by simp
  moreover have "0 \<le> uint w + 1" by simp
  ultimately have "(uint w + 1) mod 65536 = uint w + 1"
    by (simp only: mod_pos_pos_trivial)
  then show ?thesis
    by (simp add: uint_word_ariths)
qed

lemma bound_is_succ:
  assumes "(last_seq :: 16 word) \<noteq> 0xFFFF"
  shows "(uint (seq :: 16 word) = uint last_seq + 1) = (seq = last_seq + 1)"
  using uint_succ [OF assms] by (metis word_uint_eqI)

lemma unat_diff_succ:
  assumes "(seq :: 16 word) \<noteq> last_seq"
  shows "unat (last_seq - seq) = Suc (unat (last_seq - (seq + 1)))"
proof -
  have nz: "last_seq - seq \<noteq> 0" using assms by simp
  have eq: "last_seq - (seq + 1) = (last_seq - seq) - 1" by simp
  have "unat ((last_seq - seq) - 1) = unat (last_seq - seq) - 1"
    using nz by (simp add: unat_minus_one)
  moreover have "0 < unat (last_seq - seq)" using nz by (simp add: unat_gt_0)
  ultimately show ?thesis by (simp only: eq)
qed

lemma all_le_Suc_shift:
  "(\<forall>k \<le> Suc n. P (seq + of_nat k)) = (P (seq :: 16 word) \<and> (\<forall>k \<le> n. P (seq + 1 + of_nat k)))"
proof -
  have "(\<forall>k \<le> Suc n. P (seq + of_nat k)) = (P (seq + of_nat 0) \<and> (\<forall>k \<le> n. P (seq + of_nat (Suc k))))"
    by (metis le0 Suc_le_mono not0_implies_Suc)
  then show ?thesis by (simp add: add.assoc)
qed

lemma is_complete_loop_spec:
  assumes "last_seq \<noteq> 0xFFFF"
  shows "n = unat (last_seq - seq) \<Longrightarrow> seq \<noteq> last_seq + 1 \<Longrightarrow>
    is_complete_loop pkts last_seq seq =
      Some (\<forall>k \<le> n. map_of pkts (seq + of_nat k) \<noteq> None)"
proof (induction n arbitrary: seq)
  case 0
  then have s: "seq = last_seq" by (simp add: unat_eq_0)
  have "is_complete_loop pkts last_seq last_seq =
      Some (\<forall>k \<le> 0. map_of pkts (last_seq + of_nat k) \<noteq> None)"
    by (subst is_complete_loop.simps, subst is_complete_loop.simps [of _ _ "last_seq + 1"])
       (simp add: bound_is_succ [OF assms])
  then show ?case by (simp only: s)
next
  case (Suc n)
  then have ne: "seq \<noteq> last_seq" by auto
  have n: "n = unat (last_seq - (seq + 1))"
    using Suc.prems(1) unat_diff_succ [OF ne] by simp
  have "seq + 1 \<noteq> last_seq + 1" using ne by simp
  from Suc.IH [OF n this]
  have IH: "is_complete_loop pkts last_seq (seq + 1) =
      Some (\<forall>k \<le> n. map_of pkts (seq + 1 + of_nat k) \<noteq> None)" .
  have rhs: "(\<forall>k \<le> Suc n. map_of pkts (seq + of_nat k) \<noteq> None) =
      (map_of pkts seq \<noteq> None \<and> (\<forall>k \<le> n. map_of pkts (seq + 1 + of_nat k) \<noteq> None))"
    by (rule all_le_Suc_shift [of n "\<lambda>x. map_of pkts x \<noteq> None" seq])
  show ?case
    unfolding rhs
    by (subst is_complete_loop.simps)
       (simp add: bound_is_succ [OF assms] Suc.prems(2) IH)
qed


text \<open>For every other marker sequence number the loop returns, and agrees with the
  completeness test as the claim words it (the start just after the end excepted, where
  the loop body never runs).\<close>

lemma is_complete_agrees:
  assumes "last_sequence a \<noteq> 0xFFFF" and "first_sequence a \<noteq> last_sequence a + 1"
  shows "is_complete a = Some (spec_complete a)"
  using is_complete_loop_spec [OF assms(1) refl assms(2), of "packets a"]
  by (auto simp: is_complete_def spec_complete_def)

lemma wrap_assembler:
  "assembler_insert [0x41] 0xFFFF 1000 True True 0 new_assembler =
     \<lparr>fa_timestamp = 1000, packets = [(0xFFFF, [0x41])], first_sequence = 0xFFFF,
      last_sequence = 0xFFFF, has_first = True, has_last = True, fa_is_keyframe = True,
      first_arrival = 0\<rparr>"
  by (simp add: assembler_insert_def new_assembler_def)

lemma wrap_is_complete:
  "is_complete
     \<lparr>fa_timestamp = 1000, packets = [(0xFFFF, [0x41])], first_sequence = 0xFFFF,
      last_sequence = 0xFFFF, has_first = True, has_last = True, fa_is_keyframe = True,
      first_arrival = 0\<rparr> = Some False"
  unfolding is_complete_def
  by (simp, subst is_complete_loop.simps, simp, subst is_complete_loop.simps, simp)

text \<open>
  Claim C5, evaluated where the code departs from it. A key frame of one packet with
  sequence number 65535 and the marker bit is inserted into a fresh buffer. Both bounds
  are then known and the one sequence number between them has a stored payload, yet
  \<open>is_complete\<close> answers false and no frame is queued; the same packet with sequence number
  65534 is queued as a complete frame with its payload.
\<close>

theorem is_complete_wrap_65535:
  "assembler_insert [0x41] 0xFFFF 1000 True True 0 new_assembler =
     \<lparr>fa_timestamp = 1000, packets = [(0xFFFF, [0x41])], first_sequence = 0xFFFF,
      last_sequence = 0xFFFF, has_first = True, has_last = True, fa_is_keyframe = True,
      first_arrival = 0\<rparr> \<and>
   is_complete (assembler_insert [0x41] 0xFFFF 1000 True True 0 new_assembler) = Some False \<and>
   map_option complete_frames
     (insert_packet [0x41] 0xFFFF 1000 True True 0 0 new_frame_buffer) = Some [] \<and>
   map_option (\<lambda>impl. map frame_data (complete_frames impl))
     (insert_packet [0x41] 0xFFFE 1000 True True 0 0 new_frame_buffer) = Some [[0x41]]"
proof -
  have a: "map_option complete_frames
     (insert_packet [0x41] 0xFFFF 1000 True True 0 0 new_frame_buffer) = Some []"
    by (simp add: insert_packet_def new_frame_buffer_def wrap_assembler wrap_is_complete
        cleanup_old_frames_def Let_def)
  have "assembler_insert [0x41] 0xFFFE 1000 True True 0 new_assembler =
     \<lparr>fa_timestamp = 1000, packets = [(0xFFFE, [0x41])], first_sequence = 0xFFFE,
      last_sequence = 0xFFFE, has_first = True, has_last = True, fa_is_keyframe = True,
      first_arrival = 0\<rparr>" (is "_ = ?b")
    by (simp add: assembler_insert_def new_assembler_def)
  moreover have "is_complete ?b = Some True"
    unfolding is_complete_def
    by (simp, subst is_complete_loop.simps, simp, subst is_complete_loop.simps, simp)
  moreover have "assemble ?b =
     \<lparr>frame_data = [0x41], rtp_timestamp = 1000, sequence_start = 0xFFFE,
      sequence_end = 0xFFFE, arrival_time = 0, frame_is_keyframe = True,
      frame_is_complete = True\<rparr>"
    by (simp add: assemble_def)
  ultimately have b: "map_option (\<lambda>impl. map frame_data (complete_frames impl))
     (insert_packet [0x41] 0xFFFE 1000 True True 0 0 new_frame_buffer) = Some [[0x41]]"
    by (simp add: insert_packet_def new_frame_buffer_def cleanup_old_frames_def
        duration_cast_ms_def Let_def)
  show ?thesis
    using a b by (simp add: wrap_assembler wrap_is_complete)
qed

theorem is_complete_wrap_65535_witness:
  "is_complete (assembler_insert [0x41] 0xFFFF 1000 True True 0 new_assembler) = Some False \<and>
   map_option complete_frames
     (insert_packet [0x41] 0xFFFF 1000 True True 0 0 new_frame_buffer) = Some []"
  using is_complete_wrap_65535 by blast

subsection \<open>Packet pacer\<close>

lemma drain_config:
  "pacer_config (fst (drain q impl n)) = pacer_config impl \<and>
   last_process_time (fst (drain q impl n)) = last_process_time impl"
  by (induction q impl n rule: drain.induct) simp_all

lemma bytes_handed_snoc:
  "bytes_handed (impl\<lparr>sent_log := sent_log impl @ [(payload, dest)]\<rparr>) =
     bytes_handed impl + length payload"
  by (simp add: bytes_handed_def)








lemma process_config:
  "pacer_config (fst (pacer_process now impl)) = pacer_config impl \<and>
   last_process_time (fst (pacer_process now impl)) = now"
  by (simp add: pacer_process_def drain_config)

lemma enqueue_unchanged:
  "pacer_config (snd (enqueue payload dest prio now impl)) = pacer_config impl \<and>
   last_process_time (snd (enqueue payload dest prio now impl)) = last_process_time impl \<and>
   available_tokens (snd (enqueue payload dest prio now impl)) = available_tokens impl \<and>
   bytes_handed (snd (enqueue payload dest prio now impl)) = bytes_handed impl"
  by (simp add: enqueue_def bytes_handed_def)

lemma run_config: "pacer_config (pacer_run calls impl) = pacer_config impl"
proof (induction calls arbitrary: impl)
  case Nil
  then show ?case by (simp add: pacer_run_def)
next
  case (Cons c calls)
  then show ?case
    by (cases c) (simp_all add: pacer_run_def enqueue_unchanged process_config)
qed










subsection \<open>Audio mixer\<close>

lemma fold_adds:
  assumes step: "\<And>j mb. j \<in> set js \<Longrightarrow> length mb = n \<Longrightarrow>
             length (step j mb) = n \<and> (\<forall>p < n. step j mb ! p = mb ! p + d j p)"
    and len: "length (mb :: 32 word list) = n"
  shows "length (fold step js mb) = n \<and>
         (\<forall>p < n. fold step js mb ! p = mb ! p + sum_list (map (\<lambda>j. d j p) js))"
  using assms
proof (induction js arbitrary: mb)
  case Nil
  then show ?case by simp
next
  case (Cons j js)
  have s: "length (step j mb) = n \<and> (\<forall>p < n. step j mb ! p = mb ! p + d j p)"
    using Cons.prems by simp
  have "length (fold step js (step j mb)) = n \<and>
         (\<forall>p < n. fold step js (step j mb) ! p = step j mb ! p + sum_list (map (\<lambda>j. d j p) js))"
    using Cons.prems s by (intro Cons.IH) simp_all
  with s show ?case by (simp add: add.assoc)
qed

lemma sum_list_single:
  "sum_list (map (\<lambda>k. if k = q then g k else (0 :: 32 word)) [0..<m]) = (if q < m then g q else 0)"
  by (induction m) auto

lemma mono_mix_adds:
  assumes "length (buffer source) = n" and "length mb = n"
  shows "length (mono_mix fp source mb) = n \<and>
         (\<forall>p < n. mono_mix fp source mb ! p =
            mb ! p + mul_trunc fp (buffer source ! p) (volume (params source)))"
proof -
  let ?f = "\<lambda>j. mul_trunc fp (buffer source ! j) (volume (params source))"
  have "length (fold (\<lambda>i mb. mb[i := mb ! i + ?f i]) [0..<n] mb) = n \<and>
        (\<forall>p < n. fold (\<lambda>i mb. mb[i := mb ! i + ?f i]) [0..<n] mb ! p =
           mb ! p + sum_list (map (\<lambda>j. if j = p then ?f j else 0) [0..<n]))"
    using assms(2) by (intro fold_adds) (auto simp: nth_list_update)
  then show ?thesis
    by (simp add: mono_mix_def assms(1) sum_list_single)
qed


lemma stereo_index:
  "(if p = 2 * k then A k else if p = 2 * k + 1 then B k else (0 :: 32 word)) =
   (if k = (p :: nat) div 2 then (if even p then A k else B k) else 0)"
  by (cases "even p") (auto elim!: evenE oddE)

lemma stereo_round_adds:
  assumes "length mb = n"
  shows "length (stereo_round fp source i mb) = n \<and>
         (\<forall>p < n. stereo_round fp source i mb ! p = mb ! p +
            (if p = i then mul_trunc fp (buffer source ! i)
                             (left_gain fp (volume (params source)) (pan (params source)))
             else if p = i + 1
             then mul_trunc fp (buffer source ! i)
                    (right_gain fp (volume (params source)) (pan (params source)))
                  + mul_trunc fp (buffer source ! (i + 1))
                    (right_gain fp (volume (params source)) (pan (params source)))
             else 0))"
  using assms by (auto simp: stereo_round_def Let_def nth_list_update)

lemma stereo_mix_adds:
  assumes "length (buffer source) = n" and "length mb = n"
  shows "length (stereo_mix fp source mb) = n \<and>
         (\<forall>p < n. stereo_mix fp source mb ! p = mb ! p +
            (if even p
             then mul_trunc fp (buffer source ! p)
                    (left_gain fp (volume (params source)) (pan (params source)))
             else mul_trunc fp (buffer source ! (p - 1))
                    (right_gain fp (volume (params source)) (pan (params source)))
                  + mul_trunc fp (buffer source ! p)
                    (right_gain fp (volume (params source)) (pan (params source)))))"
proof -
  let ?lg = "left_gain fp (volume (params source)) (pan (params source))"
  let ?rg = "right_gain fp (volume (params source)) (pan (params source))"
  let ?A = "\<lambda>k. mul_trunc fp (buffer source ! (2 * k)) ?lg"
  let ?B = "\<lambda>k. mul_trunc fp (buffer source ! (2 * k)) ?rg
                + mul_trunc fp (buffer source ! (2 * k + 1)) ?rg"
  let ?d = "\<lambda>i p. if p = i then mul_trunc fp (buffer source ! i) ?lg
             else if p = i + 1
             then mul_trunc fp (buffer source ! i) ?rg + mul_trunc fp (buffer source ! (i + 1)) ?rg
             else 0"
  let ?js = "map (\<lambda>k. 2 * k) [0..<(n + 1) div 2]"
  have F: "length (fold (stereo_round fp source) ?js mb) = n \<and>
        (\<forall>p < n. fold (stereo_round fp source) ?js mb ! p =
           mb ! p + sum_list (map (\<lambda>j. ?d j p) ?js))"
    using assms(2) by (intro fold_adds stereo_round_adds)
  have S: "sum_list (map (\<lambda>j. ?d j p) ?js) =
        (if even p then mul_trunc fp (buffer source ! p) ?lg
         else mul_trunc fp (buffer source ! (p - 1)) ?rg + mul_trunc fp (buffer source ! p) ?rg)"
    if "p < n" for p
  proof -
    have "sum_list (map (\<lambda>j. ?d j p) ?js) =
          sum_list (map (\<lambda>k. if k = p div 2 then (if even p then ?A k else ?B k) else 0)
                      [0..<(n + 1) div 2])"
      by (simp add: comp_def stereo_index [of p _ ?A ?B])
    also have "\<dots> = (if p div 2 < (n + 1) div 2 then (if even p then ?A (p div 2) else ?B (p div 2)) else 0)"
      by (rule sum_list_single)
    also have "\<dots> = (if even p then ?A (p div 2) else ?B (p div 2))"
      using that by auto
    also have "\<dots> = (if even p then mul_trunc fp (buffer source ! p) ?lg
         else mul_trunc fp (buffer source ! (p - 1)) ?rg + mul_trunc fp (buffer source ! p) ?rg)"
      by (auto elim!: evenE oddE)
    finally show ?thesis .
  qed
  from F S show ?thesis
    by (simp add: stereo_mix_def assms(1))
qed


lemma mix_source_adds:
  assumes "length (buffer (snd entry)) = n" and "length mb = n"
  shows "length (mix_source fp cfg rid mb entry) = n \<and>
         (\<forall>p < n. mix_source fp cfg rid mb entry ! p =
            mb ! p + (if heard rid entry then source_share fp cfg (snd entry) p else 0))"
proof (cases entry)
  case (Pair sid source)
  show ?thesis
    using assms mono_mix_adds [of source n mb fp] stereo_mix_adds [of source n mb fp]
    by (simp add: Pair mix_source_def heard_def source_share_def)
qed

lemma mix_loop_adds:
  assumes "list_all (\<lambda>entry. length (buffer (snd entry)) = n) srcs" and "length mb = n"
  shows "length (foldl (mix_source fp cfg rid) mb srcs) = n \<and>
         (\<forall>p < n. foldl (mix_source fp cfg rid) mb srcs ! p =
            mb ! p + sum_list (map (\<lambda>entry. source_share fp cfg (snd entry) p)
                                  (filter (heard rid) srcs)))"
  using assms
proof (induction srcs arbitrary: mb)
  case Nil
  then show ?case by simp
next
  case (Cons e srcs)
  have e: "length (buffer (snd e)) = n" and rest: "list_all (\<lambda>entry. length (buffer (snd entry)) = n) srcs"
    using Cons.prems(1) by simp_all
  note s = mix_source_adds [OF e Cons.prems(2), of fp cfg rid]
  from Cons.IH [OF rest conjunct1 [OF s]] s show ?case
    by (simp add: add.assoc)
qed



lemma update_active_speaker_keeps:
  "sources (update_active_speaker fp impl) = sources impl \<and>
   frame_size (update_active_speaker fp impl) = frame_size impl \<and>
   mixer_config (update_active_speaker fp impl) = mixer_config impl \<and>
   mix_buffer (update_active_speaker fp impl) = mix_buffer impl \<and>
   mixed_log (update_active_speaker fp impl) = mixed_log impl \<and>
   mixed_callback (update_active_speaker fp impl) = mixed_callback impl"
  by (simp add: update_active_speaker_def Let_def case_prod_beta)

lemma process_recipient_keeps:
  "sources (process_recipient fp impl entry) = sources impl \<and>
   mixer_config (process_recipient fp impl entry) = mixer_config impl \<and>
   mixed_callback (process_recipient fp impl entry) = mixed_callback impl \<and>
   frame_size (process_recipient fp impl entry) = frame_size impl"
  by (simp add: process_recipient_def Let_def)



















text \<open>A tick keeps the invariant too, whether or not a callback is installed.\<close>

lemma recipient_loop_wf:
  assumes "list_all (\<lambda>entry. length (buffer (snd entry)) = length (mix_buffer impl)) (sources impl)"
  shows "sources (foldl (process_recipient fp) impl es) = sources impl \<and>
         length (mix_buffer (foldl (process_recipient fp) impl es)) = length (mix_buffer impl) \<and>
         frame_size (foldl (process_recipient fp) impl es) = frame_size impl"
  using assms
proof (induction es arbitrary: impl)
  case Nil
  then show ?case by simp
next
  case (Cons e es)
  let ?i = "process_recipient fp impl e"
  note k = process_recipient_keeps [of fp impl e]
  from mix_loop_adds [OF Cons.prems, of "replicate (length (mix_buffer impl)) 0" fp
      "mixer_config impl" "fst e"]
  have len: "length (mix_buffer ?i) = length (mix_buffer impl)"
    by (simp add: process_recipient_def Let_def)
  have "list_all (\<lambda>entry. length (buffer (snd entry)) = length (mix_buffer ?i)) (sources ?i)"
    using Cons.prems k len by simp
  from Cons.IH [OF this] show ?case
    using k len by simp
qed

lemma mixer_wf_process:
  assumes "mixer_wf impl"
  shows "mixer_wf (mixer_process fp impl)"
proof (cases "sources impl = []")
  case True
  then show ?thesis using assms by (simp add: mixer_process_def)
next
  case False
  let ?i = "update_active_speaker fp impl"
  note k = update_active_speaker_keeps [of fp impl]
  have "list_all (\<lambda>entry. length (buffer (snd entry)) = length (mix_buffer ?i)) (sources ?i)"
    using assms k by (auto simp: mixer_wf_def)
  from recipient_loop_wf [OF this, of fp "sources ?i"] show ?thesis
    using assms False k
    by (auto simp: mixer_wf_def mixer_process_def Let_def comp_def case_prod_beta list_all_iff)
qed








end
